theory Spec2Isabelle
  imports Complex_Main "HOL-Library.Word"
begin

unbundle bit_operations_syntax

section \<open>Checks and the exception they raise\<close>

text \<open>
  \<^verbatim>\<open>input.hpp\<close> signals a rejected candidate by throwing \<^verbatim>\<open>InvalidInputException\<close>, which
  carries a message (default \<^verbatim>\<open>INVALID_INPUT_PROMPT\<close>). A \<^verbatim>\<open>Check\<close> is a
  \<^verbatim>\<open>std::function<void(std::string)>\<close>: called on the candidate it either returns
  (\<open>Inr ()\<close>) or throws (\<open>Inl\<close> the exception). Checks are taken to be pure, as the
  library's own checks are.
\<close>

definition INVALID_INPUT_PROMPT :: string where
  "INVALID_INPUT_PROMPT = ''Invalid Input''"

definition INPUT_MASK :: char where
  "INPUT_MASK = CHR ''*''"

datatype Style = Basic | Masked | Instant

datatype InvalidInputException = InvalidInputException string

fun what :: "InvalidInputException \<Rightarrow> string" where
  "what (InvalidInputException error_message) = error_message"

type_synonym Check = "string \<Rightarrow> InvalidInputException + unit"

subsection \<open>\<^verbatim>\<open>checks::wrappers\<close>\<close>

definition custom :: "Check \<Rightarrow> string \<Rightarrow> Check" where
  "custom check error_message user_input =
     (case check user_input of
        Inl exception \<Rightarrow> Inl (InvalidInputException error_message)
      | Inr u \<Rightarrow> Inr ())"

definition inverse_check :: "Check \<Rightarrow> Check" where
  "inverse_check check user_input =
     (case check user_input of
        Inl exception \<Rightarrow> Inr ()
      | Inr u \<Rightarrow> Inl (InvalidInputException INVALID_INPUT_PROMPT))"

text \<open>
  The body of the check built by \<^verbatim>\<open>any\<close> from one or more checks: the \<^verbatim>\<open>for\<close> loop over
  the checks, with \<^verbatim>\<open>continue\<close> on a caught exception and \<^verbatim>\<open>return\<close> after a call that
  came back; the first equation is the end of the loop, where the \<^verbatim>\<open>throw\<close> after it is
  reached. Besides the outcome the model returns the checks the loop has called, in call
  order.
\<close>

fun any_loop :: "Check list \<Rightarrow> string \<Rightarrow> Check list \<times> (InvalidInputException + unit)" where
  "any_loop [] user_input = ([], Inl (InvalidInputException INVALID_INPUT_PROMPT))"
| "any_loop (check # checks) user_input =
     (case check user_input of
        Inl exception \<Rightarrow>
          (let (called, outcome) = any_loop checks user_input in (check # called, outcome))
      | Inr u \<Rightarrow> ([check], Inr ()))"

definition any :: "Check list \<Rightarrow> Check" where
  "any checks user_input = snd (any_loop checks user_input)"

definition any_called :: "Check list \<Rightarrow> string \<Rightarrow> Check list" where
  "any_called checks user_input = fst (any_loop checks user_input)"


section \<open>The console\<close>

text \<open>
  The state the library works on: the characters still to come on standard input (after
  the last one every read reports end of file), the fail state of \<^verbatim>\<open>std::cin\<close>, the
  terminal's attributes, and what has been written to standard output and standard error.
  Only the \<^verbatim>\<open>__linux__\<close> branch of the source is modelled.
\<close>

type_synonym tcflag_t = "32 word"

record termios =
  c_iflag :: tcflag_t
  c_oflag :: tcflag_t
  c_cflag :: tcflag_t
  c_lflag :: tcflag_t

record world =
  stdin :: "char list"
  cin_fail :: bool
  terminal :: termios
  stdout :: string
  stderr :: string

definition cout :: "string \<Rightarrow> world \<Rightarrow> world" where
  "cout text w = w\<lparr>stdout := stdout w @ text\<rparr>"

definition cerr :: "string \<Rightarrow> world \<Rightarrow> world" where
  "cerr text w = w\<lparr>stderr := stderr w @ text\<rparr>"

definition endl :: string where
  "endl = [CHR 0x0A]"

section \<open>\<^verbatim>\<open>validate\<close>\<close>

text \<open>
  An \<^verbatim>\<open>InputFunction\<close> reads the console and returns a string; \<open>None\<close> stands for a call
  that never returns.
\<close>

type_synonym InputFunction = "world \<Rightarrow> (string \<times> world) option"

text \<open>The inner \<^verbatim>\<open>for\<close> loop of \<^verbatim>\<open>validate\<close>: the exception of the first check that throws,
  at which the loop breaks.\<close>

fun run_checks :: "Check list \<Rightarrow> string \<Rightarrow> InvalidInputException option" where
  "run_checks [] user_input = None"
| "run_checks (check # checks) user_input =
     (case check user_input of
        Inl input_error \<Rightarrow> Some input_error
      | Inr u \<Rightarrow> run_checks checks user_input)"

partial_function (option) validate_loop ::
  "InputFunction \<Rightarrow> Check list \<Rightarrow> world \<Rightarrow> (string \<times> world) option" where
  "validate_loop input_function checks w =
     (case input_function w of
        None \<Rightarrow> None
      | Some (user_input, w1) \<Rightarrow>
          (case run_checks checks user_input of
             None \<Rightarrow> Some (user_input, cout endl w1)
           | Some input_error \<Rightarrow>
               validate_loop input_function checks
                 (cerr (what input_error @ endl) (cout endl w1))))"

definition validate :: "InputFunction \<Rightarrow> Check list \<Rightarrow> world \<Rightarrow> (string \<times> world) option" where
  "validate input_function checks w =
     (if checks \<noteq> [] then validate_loop input_function checks w
      else (case input_function w of
              None \<Rightarrow> None
            | Some (user_input, w1) \<Rightarrow> Some (user_input, cout endl w1)))"

section \<open>Reading keystrokes\<close>

text \<open>
  \<^verbatim>\<open>ICANON\<close> and \<^verbatim>\<open>ECHO\<close> are bit masks of the system header \<^verbatim>\<open>termios.h\<close>, which the
  source includes; the model takes them as parameters.
\<close>

record termios_h =
  ICANON :: tcflag_t
  ECHO :: tcflag_t

definition EOF :: int where
  "EOF = - 1"

text \<open>\<^verbatim>\<open>getchar()\<close>: the next character as an \<^verbatim>\<open>unsigned char\<close> converted to \<^verbatim>\<open>int\<close>, or
  \<^verbatim>\<open>EOF\<close> when the input is exhausted.\<close>

definition getchar :: "world \<Rightarrow> int \<times> world" where
  "getchar w =
     (case stdin w of
        [] \<Rightarrow> (EOF, w)
      | c # cs \<Rightarrow> (of_char c, w\<lparr>stdin := cs\<rparr>))"

text \<open>\<^verbatim>\<open>std::cin.clear()\<close> followed by \<^verbatim>\<open>std::cin.ignore(max, '\n')\<close>: the fail state is
  reset and the input is discarded up to and including the next newline (all of it when
  there is none; that sets only \<^verbatim>\<open>eofbit\<close>).\<close>

definition cin_clear_ignore :: "world \<Rightarrow> world" where
  "cin_clear_ignore w =
     w\<lparr>cin_fail := False, stdin := drop 1 (dropWhile (\<lambda>c. c \<noteq> CHR 0x0A) (stdin w))\<rparr>"

definition tcsetattr :: "termios \<Rightarrow> world \<Rightarrow> world" where
  "tcsetattr terminal_flags w = w\<lparr>terminal := terminal_flags\<rparr>"

definition getch :: "termios_h \<Rightarrow> world \<Rightarrow> char \<times> world" where
  "getch h w =
     (let terminal_flags = terminal w;
          terminal_flags = terminal_flags\<lparr>c_lflag := c_lflag terminal_flags AND NOT (ICANON h)\<rparr>;
          terminal_flags = terminal_flags\<lparr>c_lflag := c_lflag terminal_flags AND NOT (ECHO h)\<rparr>;
          w = tcsetattr terminal_flags w;
          w = (if cin_fail w then cin_clear_ignore w else w);
          (input, w) = getchar w;
          terminal_flags = terminal_flags\<lparr>c_lflag := c_lflag terminal_flags OR ICANON h\<rparr>;
          terminal_flags = terminal_flags\<lparr>c_lflag := c_lflag terminal_flags OR ECHO h\<rparr>;
          w = tcsetattr terminal_flags w
      in (char_of input, w))"

definition NEWLINE :: char where
  "NEWLINE = CHR 0x0A"

definition BACKSPACE :: char where
  "BACKSPACE = CHR 0x7F"

definition CURSOR_BACK :: char where
  "CURSOR_BACK = CHR 0x08"

text \<open>
  The \<^verbatim>\<open>do ... while\<close> loop of \<^verbatim>\<open>basic_input\<close>. One unfolding is one pass through the
  body; the loop may run forever, so the function is partial (\<open>None\<close>: no return).
\<close>

partial_function (option) basic_input_loop ::
  "termios_h \<Rightarrow> char option \<Rightarrow> string \<Rightarrow> world \<Rightarrow> (string \<times> world) option" where
  "basic_input_loop h mask_opt user_input w =
     (let (character, w1) = getch h w;
          (user_input1, w2) =
            (if character = BACKSPACE then
               (if user_input \<noteq> []
                then (butlast user_input, cout [CURSOR_BACK, CHR '' '', CURSOR_BACK] w1)
                else (user_input, w1))
             else if character \<noteq> NEWLINE then
               (user_input @ [character],
                cout [case mask_opt of Some m \<Rightarrow> m | None \<Rightarrow> character] w1)
             else (user_input, w1))
      in if character \<noteq> NEWLINE then basic_input_loop h mask_opt user_input1 w2
         else Some (user_input1, w2))"

definition basic_input :: "termios_h \<Rightarrow> char option \<Rightarrow> InputFunction" where
  "basic_input h mask_opt w = basic_input_loop h mask_opt [] w"

text \<open>\<^verbatim>\<open>toupper\<close> in the C locale.\<close>

definition toupper :: "char \<Rightarrow> char" where
  "toupper c =
     (if (97::nat) \<le> of_char c \<and> of_char c \<le> (122::nat) then char_of (of_char c - (32::nat)) else c)"

definition instant_input :: "termios_h \<Rightarrow> InputFunction" where
  "instant_input h w =
     (let (character, w1) = getch h w;
          user_input = [character]
      in Some (user_input, cout [toupper character] w1))"

text \<open>\<^verbatim>\<open>input<style, prompt_once>(message, checks...)\<close>: the \<^verbatim>\<open>switch\<close> that selects the
  input function, then the prompt and the call of \<^verbatim>\<open>validate\<close>.\<close>

definition style_input_function :: "termios_h \<Rightarrow> Style \<Rightarrow> InputFunction" where
  "style_input_function h style =
     (case style of
        Basic \<Rightarrow> basic_input h None
      | Masked \<Rightarrow> basic_input h (Some INPUT_MASK)
      | Instant \<Rightarrow> instant_input h)"

definition input ::
  "termios_h \<Rightarrow> Style \<Rightarrow> bool \<Rightarrow> string \<Rightarrow> Check list \<Rightarrow> world \<Rightarrow> (string \<times> world) option" where
  "input h style prompt_once message checks w =
     (let input_function = style_input_function h style
      in if prompt_once then validate input_function checks (cout message w)
         else validate (\<lambda>w'. input_function (cout message w')) checks w)"

section \<open>Regular expressions\<close>

text \<open>
  The checks of \<^verbatim>\<open>input.hpp\<close> are built on \<^verbatim>\<open>std::regex\<close> (default grammar: ECMAScript) and
  \<^verbatim>\<open>std::regex_match\<close>, which belong to the C++ standard library. This section models the
  part of the grammar the patterns of the source are written in: the assertions \<open>^\<close> and
  \<open>$\<close>, the atoms \<open>.\<close>, a literal character, an escaped syntax character and a bracket
  expression of characters and ranges (negated by a leading \<open>^\<close>), and the greedy
  quantifiers \<open>?\<close>, \<open>*\<close>, \<open>+\<close> and \<open>{n}\<close>. A pattern that needs more of the grammar
  (groups, alternatives, class escapes, collating elements, lazy quantifiers) is reported
  as \<open>not_modelled\<close>; a malformed one is a \<^verbatim>\<open>std::regex_error\<close>. Limits of an implementation
  on the size of a compiled expression are not modelled.
\<close>

datatype bracket_item = BChar char | BRange char char

datatype atom = AnyChar | Literal char | Bracket bool "bracket_item list"

datatype piece = AssertBegin | AssertEnd | Rep atom nat "nat option"

type_synonym regex = "piece list"

datatype regex_error = error_brack | error_range | error_badbrace | error_badrepeat | error_escape
  | not_modelled

definition is_digit :: "char \<Rightarrow> bool" where
  "is_digit c \<longleftrightarrow> (48::nat) \<le> of_char c \<and> of_char c \<le> (57::nat)"

definition digit_value :: "char \<Rightarrow> nat" where
  "digit_value c = of_char c - 48"

definition decimal :: "string \<Rightarrow> nat" where
  "decimal ds = foldl (\<lambda>n c. 10 * n + digit_value c) 0 ds"

text \<open>
  The inside of a bracket expression, up to the closing bracket. \<open>x-y\<close> is a range unless
  \<open>y\<close> is the closing bracket; a dash elsewhere stands for itself. A range whose bounds
  are out of order is an error. Ranges are modelled between ASCII characters only.
\<close>

fun parse_bracket_items :: "string \<Rightarrow> bracket_item list \<Rightarrow> regex_error + (bracket_item list \<times> string)" where
  "parse_bracket_items [] items = Inl error_brack"
| "parse_bracket_items (c # rest) items =
     (if c = CHR '']'' then Inr (items, rest)
      else if c = CHR 0x5C \<or> c = CHR ''['' then Inl not_modelled
      else (case rest of
              d # e # rest' \<Rightarrow>
                (if d = CHR ''-'' \<and> e \<noteq> CHR '']'' then
                   (if e = CHR 0x5C \<or> e = CHR ''['' \<or> (128::nat) \<le> of_char c \<or> (128::nat) \<le> of_char e
                    then Inl not_modelled
                    else if (of_char e :: nat) < of_char c then Inl error_range
                    else parse_bracket_items rest' (items @ [BRange c e]))
                 else parse_bracket_items rest (items @ [BChar c]))
            | _ \<Rightarrow> parse_bracket_items rest (items @ [BChar c])))"

definition parse_bracket :: "string \<Rightarrow> regex_error + (atom \<times> string)" where
  "parse_bracket rest =
     (case rest of
        [] \<Rightarrow> Inl error_brack
      | c # rest' \<Rightarrow>
          (if c = CHR ''^''
           then (case parse_bracket_items rest' [] of
                   Inl e \<Rightarrow> Inl e | Inr (items, rest'') \<Rightarrow> Inr (Bracket True items, rest''))
           else (case parse_bracket_items rest [] of
                   Inl e \<Rightarrow> Inl e | Inr (items, rest'') \<Rightarrow> Inr (Bracket False items, rest''))))"

definition syntax_character :: "char \<Rightarrow> bool" where
  "syntax_character c \<longleftrightarrow> c = CHR 0x5C \<or> c \<in> set ''^$.*+?()[]{}|''"

text \<open>An atom, then its quantifier. A \<open>?\<close> after a quantifier would make it lazy.\<close>

definition parse_atom :: "char \<Rightarrow> string \<Rightarrow> regex_error + (atom \<times> string)" where
  "parse_atom c rest =
     (if c = CHR ''.'' then Inr (AnyChar, rest)
      else if c = CHR ''['' then parse_bracket rest
      else if c = CHR 0x5C then
        (case rest of
           [] \<Rightarrow> Inl error_escape
         | d # rest' \<Rightarrow> if syntax_character d then Inr (Literal d, rest') else Inl not_modelled)
      else if c \<in> set ''*+?'' then Inl error_badrepeat
      else if c \<in> set ''(){}|]'' then Inl not_modelled
      else Inr (Literal c, rest))"

definition greedy :: "nat \<times> nat option \<Rightarrow> string \<Rightarrow> regex_error + ((nat \<times> nat option) \<times> string)" where
  "greedy bounds rest =
     (case rest of
        [] \<Rightarrow> Inr (bounds, rest)
      | c # rest' \<Rightarrow> if c = CHR ''?'' then Inl not_modelled else Inr (bounds, rest))"

definition parse_quantifier :: "string \<Rightarrow> regex_error + ((nat \<times> nat option) \<times> string)" where
  "parse_quantifier rest =
     (case rest of
        [] \<Rightarrow> Inr ((1, Some 1), rest)
      | c # rest' \<Rightarrow>
          (if c = CHR ''?'' then greedy (0, Some 1) rest'
           else if c = CHR ''*'' then greedy (0, None) rest'
           else if c = CHR ''+'' then greedy (1, None) rest'
           else if c = CHR ''{'' then
             (let digits = takeWhile is_digit rest'; after = dropWhile is_digit rest'
              in if digits = [] then Inl error_badbrace
                 else (case after of
                         [] \<Rightarrow> Inl error_badbrace
                       | d # after' \<Rightarrow>
                           if d = CHR ''}'' then greedy (decimal digits, Some (decimal digits)) after'
                           else Inl not_modelled))
           else Inr ((1, Some 1), rest)))"

text \<open>Each step of the parser consumes input, which is why \<open>parse_regex\<close> terminates.\<close>

lemma parse_bracket_items_length:
  "parse_bracket_items s items = Inr (items', rest) \<Longrightarrow> length rest < length s"
proof (induction "length s" arbitrary: s items rule: less_induct)
  case less
  show ?case
  proof (cases s)
    case Nil
    then show ?thesis using less.prems by simp
  next
    case (Cons c r)
    have unf: "(if c = CHR '']'' then Inr (items, r)
      else if c = CHR 0x5C \<or> c = CHR ''['' then Inl not_modelled
      else (case r of
              d # e # rest' \<Rightarrow>
                (if d = CHR ''-'' \<and> e \<noteq> CHR '']'' then
                   (if e = CHR 0x5C \<or> e = CHR ''['' \<or> (128::nat) \<le> of_char c \<or> (128::nat) \<le> of_char e
                    then Inl not_modelled
                    else if (of_char e :: nat) < of_char c then Inl error_range
                    else parse_bracket_items rest' (items @ [BRange c e]))
                 else parse_bracket_items r (items @ [BChar c]))
            | _ \<Rightarrow> parse_bracket_items r (items @ [BChar c]))) = Inr (items', rest)"
      using less.prems unfolding Cons by (simp only: parse_bracket_items.simps(2))
    have IH: "parse_bracket_items t its = Inr (items', rest) \<Longrightarrow> length t < length s \<Longrightarrow>
        length rest < length t" for t its
      using less.hyps by blast
    show ?thesis
      using unf IH [of r "items @ [BChar c]"] IH [of "tl (tl r)" "items @ [BRange c (hd (tl r))]"]
      by (auto simp: Cons simp del: parse_bracket_items.simps split: if_splits list.splits)
  qed
qed

lemma parse_bracket_length:
  assumes p: "parse_bracket s = Inr (a, rest)"
  shows "length rest < length s"
proof (cases s)
  case Nil
  then show ?thesis using p by (simp add: parse_bracket_def)
next
  case (Cons c r)
  show ?thesis
  proof (cases "c = CHR ''^''")
    case True
    then obtain items where "parse_bracket_items r [] = Inr (items, rest)"
      using p Cons by (auto simp: parse_bracket_def simp del: parse_bracket_items.simps split: sum.splits)
    from parse_bracket_items_length [OF this] show ?thesis using Cons by simp
  next
    case False
    then obtain items where "parse_bracket_items s [] = Inr (items, rest)"
      using p Cons by (auto simp: parse_bracket_def simp del: parse_bracket_items.simps split: sum.splits)
    from parse_bracket_items_length [OF this] show ?thesis .
  qed
qed

lemma parse_atom_length:
  assumes p: "parse_atom c s = Inr (a, rest)"
  shows "length rest \<le> length s"
proof -
  show ?thesis
  proof (cases "c = CHR ''[''")
    case True
    then have "parse_bracket s = Inr (a, rest)"
      using p by (simp add: parse_atom_def)
    from parse_bracket_length [OF this] show ?thesis by simp
  next
    case nb: False
    show ?thesis
    proof (cases "c = CHR 0x5C")
      case True
      then show ?thesis using p
        by (cases s) (simp_all add: parse_atom_def split: if_splits)
    next
      case False
      then have "rest = s"
        using p nb unfolding parse_atom_def by (simp split: if_splits)
      then show ?thesis by simp
    qed
  qed
qed

lemma parse_quantifier_length: "parse_quantifier s = Inr (q, rest) \<Longrightarrow> length rest \<le> length s"
proof -
  have "length (dropWhile is_digit xs) \<le> length xs" for xs
    by (rule length_dropWhile_le)
  moreover have "dropWhile is_digit xs = d # ys \<Longrightarrow> length ys < length xs" for xs d ys
    using length_dropWhile_le [of is_digit xs] by simp
  ultimately show "parse_quantifier s = Inr (q, rest) \<Longrightarrow> length rest \<le> length s"
    by (fastforce simp: parse_quantifier_def greedy_def Let_def split: if_splits list.splits)
qed

function parse_regex :: "string \<Rightarrow> regex_error + regex" where
  "parse_regex [] = Inr []"
| "parse_regex (c # rest) =
     (if c = CHR ''^'' then map_sum id ((#) AssertBegin) (parse_regex rest)
      else if c = CHR ''$'' then map_sum id ((#) AssertEnd) (parse_regex rest)
      else (case parse_atom c rest of
              Inl e \<Rightarrow> Inl e
            | Inr (a, rest1) \<Rightarrow>
                (case parse_quantifier rest1 of
                   Inl e \<Rightarrow> Inl e
                 | Inr ((lo, hi), rest2) \<Rightarrow> map_sum id ((#) (Rep a lo hi)) (parse_regex rest2))))"
  by pat_completeness auto
termination
proof (relation "measure length")
  fix c rest x a rest1 y q rest2 lo hi
  assume "parse_atom c rest = Inr x" "(a, rest1) = x" "parse_quantifier rest1 = Inr y"
    "(q, rest2) = y" "(lo, hi) = q"
  then have "length rest1 \<le> length rest" "length rest2 \<le> length rest1"
    using parse_atom_length [of c rest a rest1] parse_quantifier_length [of rest1 q rest2]
    by auto
  then show "(rest2, c # rest) \<in> measure length" by simp
qed auto

text \<open>
  Matching. \<open>.\<close> matches any character but a line terminator. \<^verbatim>\<open>regex_match\<close> succeeds when
  the expression matches the whole string; \<open>at_begin\<close> records that no character has
  been consumed yet.
\<close>

fun item_matches :: "bracket_item \<Rightarrow> char \<Rightarrow> bool" where
  "item_matches (BChar d) c \<longleftrightarrow> c = d"
| "item_matches (BRange lo hi) c \<longleftrightarrow> (of_char lo :: nat) \<le> of_char c \<and> (of_char c :: nat) \<le> of_char hi"

fun atom_matches :: "atom \<Rightarrow> char \<Rightarrow> bool" where
  "atom_matches AnyChar c \<longleftrightarrow> c \<noteq> CHR 0x0A \<and> c \<noteq> CHR 0x0D"
| "atom_matches (Literal d) c \<longleftrightarrow> c = d"
| "atom_matches (Bracket negated items) c \<longleftrightarrow> (negated \<noteq> list_ex (\<lambda>i. item_matches i c) items)"

fun match_pieces :: "piece list \<Rightarrow> bool \<Rightarrow> string \<Rightarrow> bool" where
  "match_pieces [] at_begin s \<longleftrightarrow> s = []"
| "match_pieces (AssertBegin # ps) at_begin s \<longleftrightarrow> at_begin \<and> match_pieces ps at_begin s"
| "match_pieces (AssertEnd # ps) at_begin s \<longleftrightarrow> s = [] \<and> match_pieces ps at_begin s"
| "match_pieces (Rep a lo hi # ps) at_begin s \<longleftrightarrow>
     list_ex (\<lambda>k. list_all (atom_matches a) (take k s) \<and> match_pieces ps (at_begin \<and> k = 0) (drop k s))
       [lo ..< Suc (case hi of None \<Rightarrow> length s | Some h \<Rightarrow> min h (length s))]"

definition regex_match :: "string \<Rightarrow> regex \<Rightarrow> bool" where
  "regex_match s r = match_pieces r True s"

text \<open>\<^verbatim>\<open>std::to_string\<close> of an unsigned value.\<close>

fun to_string :: "nat \<Rightarrow> string" where
  "to_string n = (if n < 10 then [char_of (48 + n)] else to_string (n div 10) @ [char_of (48 + n mod 10)])"

declare to_string.simps [simp del]

section \<open>\<^verbatim>\<open>checks\<close>\<close>

text \<open>
  A function that builds a check constructs a \<^verbatim>\<open>std::regex\<close> first, which can throw
  \<^verbatim>\<open>std::regex_error\<close>; \<^verbatim>\<open>numeric\<close> throws \<^verbatim>\<open>std::invalid_argument\<close> for a type that is not
  arithmetic. These are errors of the construction, not rejections of a candidate.
\<close>

definition std_regex :: "string \<Rightarrow> regex_error + regex" where
  "std_regex pattern = parse_regex pattern"

datatype std_exception = RegexError regex_error | InvalidArgument string

type_synonym 'a constructed = "std_exception + 'a"

definition matches_regex :: "regex \<Rightarrow> Check" where
  "matches_regex regular_expression user_input =
     (if \<not> regex_match user_input regular_expression
      then Inl (InvalidInputException INVALID_INPUT_PROMPT)
      else Inr ())"

definition length_check :: "32 word \<Rightarrow> Check constructed" where
  "length_check n =
     map_sum RegexError matches_regex (std_regex (''^.{'' @ to_string (unat n) @ ''}$''))"

definition consists_of :: "string \<Rightarrow> Check constructed" where
  "consists_of string_of_char =
     map_sum RegexError matches_regex (std_regex (''^['' @ string_of_char @ '']+$''))"

text \<open>The template parameter \<open>T\<close> of \<^verbatim>\<open>numeric\<close> and \<^verbatim>\<open>range\<close>, as the type traits the code
  asks for.\<close>

record type_traits =
  is_arithmetic :: bool
  is_floating_point :: bool
  is_signed :: bool

definition numeric :: "type_traits \<Rightarrow> Check constructed" where
  "numeric T =
     (let expression = ''^''
      in if is_arithmetic T then
           (let expression =
                  (if is_floating_point T then expression @ ''-?[0-9]+'' @ [CHR 0x5C] @ ''.[0-9]+''
                   else (let expression = (if is_signed T then expression @ ''-?'' else expression)
                         in expression @ ''[0-9]+''));
                expression = expression @ [CHR ''$'']
            in map_sum RegexError matches_regex (std_regex expression))
         else Inl (InvalidArgument ''Type T must be numeric''))"

text \<open>
  \<^verbatim>\<open>range<T>(mininimum, maximum)\<close> returns a lambda and throws nothing itself. A call of
  the lambda first builds \<^verbatim>\<open>numeric<T>()\<close> and calls it on the candidate, so for a \<open>T\<close>
  that is not arithmetic every call throws \<^verbatim>\<open>std::invalid_argument\<close> (\<open>Inl\<close>, outside);
  otherwise the call returns or throws \<^verbatim>\<open>InvalidInputException\<close> (\<open>Inr\<close>). After the
  syntax check the call reads a \<open>T\<close> from a \<^verbatim>\<open>std::stringstream\<close> over the candidate:
  \<open>stream_extract\<close> is that \<^verbatim>\<open>operator>>\<close> of the standard library (\<open>None\<close>: the stream
  is in a fail state afterwards), a parameter of the model. The values of \<open>T\<close> are
  compared with \<open><\<close> and \<open>>\<close> as the code compares them; nothing is assumed of the order
  (the comparisons of a floating type with a NaN are all false).
\<close>

definition range_check ::
  "type_traits \<Rightarrow> (string \<Rightarrow> 'a::ord option) \<Rightarrow> 'a \<Rightarrow> 'a \<Rightarrow>
     string \<Rightarrow> std_exception + (InvalidInputException + unit)" where
  "range_check T stream_extract mininimum maximum user_input =
     (case numeric T of
        Inl e \<Rightarrow> Inl e
      | Inr numeric_check \<Rightarrow>
          Inr (case numeric_check user_input of
                 Inl e \<Rightarrow> Inl e
               | Inr u \<Rightarrow>
                   (case stream_extract user_input of
                      None \<Rightarrow> Inl (InvalidInputException INVALID_INPUT_PROMPT)
                    | Some user_input_numeric \<Rightarrow>
                        if user_input_numeric < mininimum \<or> user_input_numeric > maximum
                        then Inl (InvalidInputException INVALID_INPUT_PROMPT)
                        else Inr ())))"

subsection \<open>The stream extraction for some types\<close>

text \<open>
  The integral types that \<^verbatim>\<open>operator>>\<close> reads as numbers, with their widths on Linux
  (LP64). The character types are not among them: a character type is read as one
  character (below).
\<close>

datatype integral_type =
  T_short | T_unsigned_short | T_int | T_unsigned_int
  | T_long | T_unsigned_long | T_long_long | T_unsigned_long_long

fun signed_integral :: "integral_type \<Rightarrow> bool" where
  "signed_integral T_short = True"
| "signed_integral T_unsigned_short = False"
| "signed_integral T_int = True"
| "signed_integral T_unsigned_int = False"
| "signed_integral T_long = True"
| "signed_integral T_unsigned_long = False"
| "signed_integral T_long_long = True"
| "signed_integral T_unsigned_long_long = False"

fun width :: "integral_type \<Rightarrow> nat" where
  "width T_short = 16"
| "width T_unsigned_short = 16"
| "width T_int = 32"
| "width T_unsigned_int = 32"
| "width T_long = 64"
| "width T_unsigned_long = 64"
| "width T_long_long = 64"
| "width T_unsigned_long_long = 64"

definition integral_traits :: "integral_type \<Rightarrow> type_traits" where
  "integral_traits t =
     \<lparr>is_arithmetic = True, is_floating_point = False, is_signed = signed_integral t\<rparr>"

text \<open>
  \<^verbatim>\<open>operator>>\<close> for such a type, in the classic locale with the stream's default flags:
  leading white space is skipped, an optional sign and the longest run of decimal digits
  are read; no digit or a value out of the type's range puts the stream in a fail state.
  The value for an unsigned type after a minus sign is negated modulo two to the width.
\<close>

definition isspace :: "char \<Rightarrow> bool" where
  "isspace c \<longleftrightarrow> c = CHR '' '' \<or> ((9::nat) \<le> of_char c \<and> of_char c \<le> (13::nat))"

definition extract_integral :: "integral_type \<Rightarrow> string \<Rightarrow> int option" where
  "extract_integral t s =
     (let bits = width t;
          s1 = dropWhile isspace s;
          (negative, s2) =
            (case s1 of
               [] \<Rightarrow> (False, s1)
             | c # r \<Rightarrow> if c = CHR ''-'' then (True, r) else if c = CHR ''+'' then (False, r) else (False, s1));
          digits = takeWhile is_digit s2
      in if digits = [] then None
         else (let magnitude = int (decimal digits)
               in if signed_integral t then
                    (let v = (if negative then - magnitude else magnitude)
                     in if - (2 ^ (bits - 1)) \<le> v \<and> v \<le> 2 ^ (bits - 1) - 1 then Some v else None)
                  else if magnitude \<le> 2 ^ bits - 1
                    then Some (if negative then (2 ^ bits - magnitude) mod 2 ^ bits else magnitude)
                    else None))"

definition int_traits :: type_traits where
  "int_traits = \<lparr>is_arithmetic = True, is_floating_point = False, is_signed = True\<rparr>"

text \<open>
  \<^verbatim>\<open>operator>>\<close> for \<^verbatim>\<open>char\<close>, \<^verbatim>\<open>signed char\<close> and \<^verbatim>\<open>unsigned char\<close>: leading white space is
  skipped and one character is read, whatever it is; the value is its code (negative from
  \<open>0x80\<close> on for a signed type). The stream fails only when no character is left.
\<close>

definition extract_character :: "bool \<Rightarrow> string \<Rightarrow> int option" where
  "extract_character signed_type s =
     (case dropWhile isspace s of
        [] \<Rightarrow> None
      | c # r \<Rightarrow>
          Some (if signed_type \<and> (128::int) \<le> of_char c then of_char c - 256 else of_char c))"

definition char_traits :: "bool \<Rightarrow> type_traits" where
  "char_traits signed_type =
     \<lparr>is_arithmetic = True, is_floating_point = False, is_signed = signed_type\<rparr>"

text \<open>
  A floating type: a NaN, or a finite value. The comparisons are those of IEEE 754: every
  comparison with a NaN is false. (Infinities, which the order treats as two more values,
  are left out.)
\<close>

datatype 'a ieee = NaN | Finite 'a

instantiation ieee :: (ord) ord
begin

definition less_eq_ieee :: "'a ieee \<Rightarrow> 'a ieee \<Rightarrow> bool" where
  "less_eq_ieee x y = (case x of NaN \<Rightarrow> False | Finite a \<Rightarrow> (case y of NaN \<Rightarrow> False | Finite b \<Rightarrow> a \<le> b))"

definition less_ieee :: "'a ieee \<Rightarrow> 'a ieee \<Rightarrow> bool" where
  "less_ieee x y = (case x of NaN \<Rightarrow> False | Finite a \<Rightarrow> (case y of NaN \<Rightarrow> False | Finite b \<Rightarrow> a < b))"

instance ..

end

text \<open>
  \<^verbatim>\<open>operator>>\<close> for a floating type on the notation \<^verbatim>\<open>numeric\<close> admits (\<^verbatim>\<open>range\<close> calls it on
  nothing else): white space, an optional sign, digits, and a point with digits. The
  model gives the literal its exact value; the stream gives the nearest value of the
  type, which is the same where the literal is representable.
\<close>

definition extract_floating :: "string \<Rightarrow> rat ieee option" where
  "extract_floating s =
     (let s1 = dropWhile isspace s;
          (negative, s2) =
            (case s1 of
               [] \<Rightarrow> (False, s1)
             | c # r \<Rightarrow> if c = CHR ''-'' then (True, r) else if c = CHR ''+'' then (False, r) else (False, s1));
          whole = takeWhile is_digit s2;
          fraction =
            (case dropWhile is_digit s2 of
               [] \<Rightarrow> []
             | c # r \<Rightarrow> if c = CHR ''.'' then takeWhile is_digit r else [])
      in if whole = [] \<and> fraction = [] then None
         else (let magnitude = of_nat (decimal whole) + of_nat (decimal fraction) / 10 ^ length fraction
               in Some (Finite (if negative then - magnitude else magnitude))))"

definition double_traits :: type_traits where
  "double_traits = \<lparr>is_arithmetic = True, is_floating_point = True, is_signed = True\<rparr>"

section \<open>Notions used in the statements\<close>

text \<open>
  The characters a call of \<^verbatim>\<open>getch\<close> will read from: the standard input, without its
  first line when \<^verbatim>\<open>std::cin\<close> is in a fail state (that line is discarded first).
\<close>

definition pending :: "world \<Rightarrow> char list" where
  "pending w = (if cin_fail w then drop 1 (dropWhile (\<lambda>c. c \<noteq> CHR 0x0A) (stdin w)) else stdin w)"

definition settled :: "termios_h \<Rightarrow> world \<Rightarrow> world" where
  "settled h w =
     w\<lparr>cin_fail := False,
       terminal := (terminal w)\<lparr>c_lflag := c_lflag (terminal w) OR ICANON h OR ECHO h\<rparr>\<rparr>"

text \<open>The console after a run of reads: the terminal and \<^verbatim>\<open>std::cin\<close> as \<^verbatim>\<open>getch\<close> leaves
  them, the given input left and the given text on standard output.\<close>

definition console_after :: "termios_h \<Rightarrow> world \<Rightarrow> char list \<Rightarrow> string \<Rightarrow> world" where
  "console_after h w rest out = (settled h w)\<lparr>stdin := rest, stdout := out\<rparr>"

text \<open>
  The line editor as a recursion over the keystrokes to come: the accumulated string, the
  standard output and the keystrokes left when the confirm keystroke arrives, \<open>None\<close>
  when it never arrives. It is proved below to be what \<^verbatim>\<open>basic_input\<close> computes.
\<close>

fun edit :: "char option \<Rightarrow> char list \<Rightarrow> string \<Rightarrow> string \<Rightarrow> (string \<times> string \<times> char list) option" where
  "edit mask_opt [] user_input out = None"
| "edit mask_opt (k # ks) user_input out =
     (if k = NEWLINE then Some (user_input, out, ks)
      else if k = BACKSPACE then
        (if user_input \<noteq> [] then edit mask_opt ks (butlast user_input) (out @ [CURSOR_BACK, CHR '' '', CURSOR_BACK])
         else edit mask_opt ks user_input out)
      else edit mask_opt ks (user_input @ [k]) (out @ [case mask_opt of Some m \<Rightarrow> m | None \<Rightarrow> k]))"

text \<open>Two keystroke sequences of the same length with confirm and delete keystrokes at
  the same positions.\<close>

definition same_shape :: "char list \<Rightarrow> char list \<Rightarrow> bool" where
  "same_shape ks ks' =
     list_all2 (\<lambda>k k'. (k = NEWLINE \<longleftrightarrow> k' = NEWLINE) \<and> (k = BACKSPACE \<longleftrightarrow> k' = BACKSPACE)) ks ks'"

text \<open>Concrete values for the examples: the masks of \<^verbatim>\<open>termios.h\<close> on Linux, and a console
  with given local flags and keystrokes to come.\<close>

definition linux_termios_h :: termios_h where
  "linux_termios_h = \<lparr>ICANON = 0x2, ECHO = 0x8\<rparr>"

definition tty :: "tcflag_t \<Rightarrow> char list \<Rightarrow> world" where
  "tty lflag keys =
     \<lparr>stdin = keys, cin_fail = False,
      terminal = \<lparr>c_iflag = 0x4500, c_oflag = 0x5, c_cflag = 0xBF, c_lflag = lflag\<rparr>,
      stdout = [], stderr = []\<rparr>"

text \<open>Whether a constructed check returns on a candidate; \<open>None\<close> when the construction
  threw.\<close>

definition accepts :: "Check constructed \<Rightarrow> string \<Rightarrow> bool option" where
  "accepts c s = (case c of Inl e \<Rightarrow> None | Inr check \<Rightarrow> Some (check s = Inr ()))"

text \<open>The expression \<^verbatim>\<open>numeric<T>()\<close> compiles for an arithmetic \<open>T\<close>.\<close>

definition numeric_regex :: "type_traits \<Rightarrow> regex" where
  "numeric_regex T =
     (let digits = Rep (Bracket False [BRange (CHR ''0'') (CHR ''9'')]) 1 None;
          sign = Rep (Literal (CHR ''-'')) 0 (Some 1)
      in if is_floating_point T
         then [AssertBegin, sign, digits, Rep (Literal (CHR ''.'')) 1 (Some 1), digits, AssertEnd]
         else if is_signed T then [AssertBegin, sign, digits, AssertEnd]
         else [AssertBegin, digits, AssertEnd])"

text \<open>
  A decimal integer literal (with an optional minus sign for a signed type), the integer
  it denotes, and the range of an integral type of the given signedness and width.
\<close>

definition integer_literal :: "bool \<Rightarrow> string \<Rightarrow> bool" where
  "integer_literal signed_type s \<longleftrightarrow>
     (\<exists>ds. ds \<noteq> [] \<and> list_all is_digit ds \<and> (s = ds \<or> signed_type \<and> s = CHR ''-'' # ds))"

definition literal_value :: "string \<Rightarrow> int" where
  "literal_value s =
     (case s of
        [] \<Rightarrow> 0
      | c # ds \<Rightarrow> if c = CHR ''-'' then - int (decimal ds) else int (decimal s))"

definition in_type_range :: "integral_type \<Rightarrow> int \<Rightarrow> bool" where
  "in_type_range t v \<longleftrightarrow>
     (if signed_integral t then - (2 ^ (width t - 1)) \<le> v \<and> v \<le> 2 ^ (width t - 1) - 1
      else 0 \<le> v \<and> v \<le> 2 ^ width t - 1)"

section \<open>Properties of the wrappers\<close>

lemma any_loop_called:
  "fst (any_loop checks s) =
     takeWhile (\<lambda>c. c s \<noteq> Inr ()) checks @ take 1 (dropWhile (\<lambda>c. c s \<noteq> Inr ()) checks)"
  by (induction checks) (auto split: sum.splits prod.splits)

lemma any_loop_accepts:
  "snd (any_loop checks s) = Inr () \<longleftrightarrow> (\<exists>c \<in> set checks. c s = Inr ())"
  by (induction checks) (auto split: sum.splits prod.splits)

lemma any_loop_rejects:
  "snd (any_loop checks s) \<noteq> Inr () \<longleftrightarrow>
     snd (any_loop checks s) = Inl (InvalidInputException INVALID_INPUT_PROMPT)"
  by (induction checks) (auto split: sum.splits prod.splits)

text \<open>C6: \<^verbatim>\<open>inverse(c)\<close> returns exactly on the candidates on which \<open>c\<close> throws, and throws exactly
  on those on which \<open>c\<close> returns; what it throws carries the default message.\<close>

theorem inverse_strict_complement:
  "(inverse_check c s = Inr () \<longleftrightarrow> (\<exists>e. c s = Inl e)) \<and>
   ((\<exists>e. inverse_check c s = Inl e) \<longleftrightarrow> c s = Inr ()) \<and>
   (inverse_check c s = Inl (InvalidInputException INVALID_INPUT_PROMPT) \<longleftrightarrow> c s = Inr ())"
  by (cases "c s") (auto simp: inverse_check_def)

theorem inverse_strict_complement_witness:
  "inverse_check (\<lambda>s. Inl (InvalidInputException ''no'')) ''abc'' = Inr () \<and>
   inverse_check (\<lambda>s. Inr ()) ''abc'' = Inl (InvalidInputException INVALID_INPUT_PROMPT)"
  using inverse_strict_complement [of "\<lambda>s. Inl (InvalidInputException ''no'')" "''abc''"]
    inverse_strict_complement [of "\<lambda>s. Inr ()" "''abc''"]
  by simp

text \<open>C7: \<^verbatim>\<open>any(c1..cn)\<close> returns exactly when some \<open>ci\<close> returns, and otherwise throws the
  default message; the checks it calls are those before the first one that returns,
  in the order given, and that one.\<close>

theorem any_accepts_iff:
  "(any checks s = Inr () \<longleftrightarrow> (\<exists>c \<in> set checks. c s = Inr ())) \<and>
   (any checks s = Inl (InvalidInputException INVALID_INPUT_PROMPT) \<longleftrightarrow>
      \<not> (\<exists>c \<in> set checks. c s = Inr ())) \<and>
   any_called checks s =
     takeWhile (\<lambda>c. c s \<noteq> Inr ()) checks @ take 1 (dropWhile (\<lambda>c. c s \<noteq> Inr ()) checks)"
  unfolding any_def any_called_def
  using any_loop_accepts [of checks s] any_loop_rejects [of checks s] any_loop_called [of checks s]
  by auto

theorem any_accepts_iff_witness:
  "any [\<lambda>s. Inl (InvalidInputException ''no''), \<lambda>s. Inr (), \<lambda>s. Inl (InvalidInputException ''never'')]
     ''abc'' = Inr () \<and>
   any_called
     [\<lambda>s. Inl (InvalidInputException ''no''), \<lambda>s. Inr (), \<lambda>s. Inl (InvalidInputException ''never'')]
     ''abc'' = [\<lambda>s. Inl (InvalidInputException ''no''), \<lambda>s. Inr ()] \<and>
   any [\<lambda>s. Inl (InvalidInputException ''no''), \<lambda>s. Inl (InvalidInputException ''never'')] ''abc'' =
     Inl (InvalidInputException INVALID_INPUT_PROMPT)"
  using any_accepts_iff
      [of "[\<lambda>s. Inl (InvalidInputException ''no''), \<lambda>s. Inr (), \<lambda>s. Inl (InvalidInputException ''never'')]"
        "''abc''"]
    any_accepts_iff
      [of "[\<lambda>s. Inl (InvalidInputException ''no''), \<lambda>s. Inl (InvalidInputException ''never'')]" "''abc''"]
  by simp


section \<open>Properties of \<^verbatim>\<open>validate\<close>\<close>

lemma run_checks_None: "run_checks checks s = None \<longleftrightarrow> (\<forall>c \<in> set checks. c s = Inr ())"
  by (induction checks) (auto split: sum.splits)

lemma run_checks_Some:
  "run_checks checks s = Some e \<longleftrightarrow>
     (\<exists>pre c post. checks = pre @ c # post \<and> (\<forall>p \<in> set pre. p s = Inr ()) \<and> c s = Inl e)"
proof (induction checks)
  case Nil
  then show ?case by simp
next
  case (Cons a checks)
  show ?case
  proof (cases "a s")
    case (Inl x)
    have "pre = [] \<and> c = a"
      if "a # checks = pre @ c # post" "\<forall>p \<in> set pre. p s = Inr ()" for pre c post
      using that Inl by (cases pre) auto
    then have "(\<exists>pre c post. a # checks = pre @ c # post \<and> (\<forall>p \<in> set pre. p s = Inr ()) \<and> c s = Inl e)
      \<longleftrightarrow> a s = Inl e"
      by (metis append_Nil empty_iff list.set(1))
    then show ?thesis using Inl by auto
  next
    case (Inr u)
    have "(\<exists>pre c post. a # checks = pre @ c # post \<and> (\<forall>p \<in> set pre. p s = Inr ()) \<and> c s = Inl e)
      \<longleftrightarrow> (\<exists>pre c post. checks = pre @ c # post \<and> (\<forall>p \<in> set pre. p s = Inr ()) \<and> c s = Inl e)"
      (is "?L \<longleftrightarrow> ?R")
    proof
      assume ?L
      then obtain pre c post where *: "a # checks = pre @ c # post" "\<forall>p \<in> set pre. p s = Inr ()" "c s = Inl e"
        by blast
      then obtain pre' where "pre = a # pre'" using Inr by (cases pre) auto
      with * show ?R by auto
    next
      assume ?R
      then obtain pre c post where *: "checks = pre @ c # post" "\<forall>p \<in> set pre. p s = Inr ()" "c s = Inl e"
        by blast
      then have "a # checks = (a # pre) @ c # post \<and> (\<forall>p \<in> set (a # pre). p s = Inr ())"
        using Inr by simp
      with * show ?L by blast
    qed
    then show ?thesis using Inr Cons.IH by simp
  qed
qed

lemma validate_loop_returns:
  assumes "validate_loop f checks w = Some y"
  shows "\<exists>w0 w1. f w0 = Some (fst y, w1) \<and> snd y = cout endl w1 \<and> run_checks checks (fst y) = None"
proof (rule validate_loop.raw_induct
    [where P = "\<lambda>f checks w y. \<exists>w0 w1. f w0 = Some (fst y, w1) \<and> snd y = cout endl w1 \<and>
                   run_checks checks (fst y) = None", OF _ assms])
  fix loop :: "InputFunction \<Rightarrow> Check list \<Rightarrow> world \<Rightarrow> (string \<times> world) option"
  fix f checks w y
  assume IH: "\<And>f checks w y. loop f checks w = Some y \<Longrightarrow>
      \<exists>w0 w1. f w0 = Some (fst y, w1) \<and> snd y = cout endl w1 \<and> run_checks checks (fst y) = None"
  assume body: "(case f w of None \<Rightarrow> None
      | Some (user_input, w1) \<Rightarrow>
          (case run_checks checks user_input of
             None \<Rightarrow> Some (user_input, cout endl w1)
           | Some input_error \<Rightarrow> loop f checks (cerr (what input_error @ endl) (cout endl w1)))) = Some y"
  from body obtain user_input w1 where fw: "f w = Some (user_input, w1)"
    by (cases "f w") auto
  show "\<exists>w0 w1. f w0 = Some (fst y, w1) \<and> snd y = cout endl w1 \<and> run_checks checks (fst y) = None"
  proof (cases "run_checks checks user_input")
    case None
    with body fw have "y = (user_input, cout endl w1)" by simp
    with fw None show ?thesis by auto
  next
    case (Some input_error)
    with body fw have "loop f checks (cerr (what input_error @ endl) (cout endl w1)) = Some y"
      by simp
    then show ?thesis by (rule IH)
  qed
qed

text \<open>C1: with at least one check, a string that \<^verbatim>\<open>validate\<close> returns is the string the
  input function returned on the last attempt (after which only the newline was written),
  and every check returns on it.\<close>

theorem validate_returns_checked:
  assumes "checks \<noteq> []" and "validate input_function checks w = Some (s, w')"
  shows "(\<forall>c \<in> set checks. c s = Inr ()) \<and>
         (\<exists>w0 w1. input_function w0 = Some (s, w1) \<and> w' = cout endl w1)"
proof -
  from assms have "validate_loop input_function checks w = Some (s, w')"
    by (simp add: validate_def)
  from validate_loop_returns [OF this]
  obtain w0 w1 where "input_function w0 = Some (s, w1)" "w' = cout endl w1"
    "run_checks checks s = None"
    by auto
  then show ?thesis
    unfolding run_checks_None by blast
qed

section \<open>Properties of \<^verbatim>\<open>getch\<close>\<close>

lemma restore_bits: "((x AND NOT a) AND NOT b) OR a OR b = x OR a OR (b :: 'a::len word)"
  by (rule bit_eqI) (auto simp: bit_simps)

lemma restore_bits': "(x AND NOT a AND NOT b) OR a OR b = x OR a OR (b :: 'a::len word)"
  by (rule bit_eqI) (auto simp: bit_simps)

lemma getch_eq:
  "getch h w =
     (case pending w of
        [] \<Rightarrow> (char_of EOF, console_after h w [] (stdout w))
      | c # cs \<Rightarrow> (c, console_after h w cs (stdout w)))"
  by (cases "stdin w"; cases "dropWhile (\<lambda>c. c \<noteq> CHR 0x0A) (stdin w)"; cases "cin_fail w")
     (auto simp: getch_def getchar_def pending_def settled_def tcsetattr_def cin_clear_ignore_def Let_def
      restore_bits restore_bits' or.assoc console_after_def
      split: list.splits)

lemma char_of_EOF: "char_of EOF \<noteq> NEWLINE" "char_of EOF \<noteq> BACKSPACE"
  by (simp_all add: EOF_def NEWLINE_def BACKSPACE_def char_of_def)

lemma pending_after: "pending (console_after h w ks out) = ks"
  by (simp add: pending_def settled_def console_after_def)

lemma stdout_after: "stdout (console_after h w ks out) = out"
  by (simp add: settled_def console_after_def)

lemma cout_after: "cout text (console_after h w ks out) = console_after h w ks (out @ text)"
  by (simp add: settled_def console_after_def cout_def)

lemma after_after: "console_after h (console_after h w ks out) rest out' = console_after h w rest out'"
  by (simp add: settled_def console_after_def or.assoc)

lemmas after_simps = pending_after stdout_after cout_after after_after

lemma or_absorb_iff: "x OR m = x \<longleftrightarrow> x AND m = (m :: 'a::len word)"
  by (auto simp: bit_eq_iff bit_simps)

lemma lflag_update_eq: "t\<lparr>c_lflag := x\<rparr> = t \<longleftrightarrow> x = c_lflag (t :: termios)"
  by (cases t) auto

text \<open>C5, as the code has it: \<^verbatim>\<open>getch\<close> leaves the terminal attributes as it found them
  except that the canonical-mode and echo bits are set; so the attributes after the call
  equal those before it exactly when both bits were set on entry.\<close>

theorem getch_terminal_flags:
  "terminal (snd (getch h w)) = (terminal w)\<lparr>c_lflag := c_lflag (terminal w) OR ICANON h OR ECHO h\<rparr> \<and>
   (terminal (snd (getch h w)) = terminal w \<longleftrightarrow>
      c_lflag (terminal w) AND (ICANON h OR ECHO h) = ICANON h OR ECHO h)"
proof -
  have 1: "terminal (snd (getch h w)) =
      (terminal w)\<lparr>c_lflag := c_lflag (terminal w) OR ICANON h OR ECHO h\<rparr>"
    by (simp add: getch_eq console_after_def settled_def split: list.splits)
  have "c_lflag (terminal w) OR ICANON h OR ECHO h = c_lflag (terminal w) OR (ICANON h OR ECHO h)"
    by (simp add: or.assoc)
  then show ?thesis
    unfolding 1 lflag_update_eq by (simp add: or_absorb_iff)
qed

theorem getch_terminal_flags_witness:
  "terminal (snd (getch linux_termios_h (tty 0x8A3B ''a''))) = terminal (tty 0x8A3B ''a'')"
  using getch_terminal_flags [of linux_termios_h "tty 0x8A3B ''a''"]
  by (simp add: linux_termios_h_def tty_def)

text \<open>C5 as stated fails on a terminal whose echo was off on entry (local flags
  \<open>0x8A33\<close>): \<^verbatim>\<open>getch\<close> returns with echo on (\<open>0x8A3B\<close>).\<close>

theorem getch_restores_counterexample:
  "c_lflag (terminal (tty 0x8A33 ''a'')) = 0x8A33 \<and>
   c_lflag (terminal (snd (getch linux_termios_h (tty 0x8A33 ''a'')))) = 0x8A3B"
  by (simp add: getch_def getchar_def tcsetattr_def linux_termios_h_def tty_def)

section \<open>Properties of \<^verbatim>\<open>basic_input\<close>\<close>

lemma loop_of_edit:
  "pending w = ks \<Longrightarrow> edit m ks acc (stdout w) = Some (acc', out', rest) \<Longrightarrow>
   basic_input_loop h m acc w = Some (acc', console_after h w rest out')"
proof (induction ks arbitrary: w acc)
  case Nil
  then show ?case by simp
next
  case (Cons k ks)
  let ?w1 = "console_after h w ks (stdout w)"
  have g: "getch h w = (k, ?w1)"
    using Cons.prems(1) by (simp add: getch_eq)
  show ?case
  proof (cases "k = NEWLINE")
    case True
    then show ?thesis using Cons.prems(2) g
      by (subst basic_input_loop.simps) (simp add: NEWLINE_def BACKSPACE_def)
  next
    case nl: False
    show ?thesis
    proof (cases "k = BACKSPACE")
      case True
      show ?thesis
      proof (cases "acc = []")
        case e: True
        have "basic_input_loop h m acc ?w1 = Some (acc', console_after h ?w1 rest out')"
          using Cons.prems(2) True nl e by (intro Cons.IH) (auto simp: after_simps)
        then show ?thesis using g True nl e
          by (subst basic_input_loop.simps) (simp add: after_simps)
      next
        case e: False
        let ?w2 = "cout [CURSOR_BACK, CHR '' '', CURSOR_BACK] ?w1"
        have "basic_input_loop h m (butlast acc) ?w2 = Some (acc', console_after h ?w2 rest out')"
          using Cons.prems(2) True nl e by (intro Cons.IH) (auto simp: after_simps)
        then show ?thesis using g True nl e
          by (subst basic_input_loop.simps) (simp add: after_simps)
      qed
    next
      case False
      let ?w2 = "cout [case m of Some x \<Rightarrow> x | None \<Rightarrow> k] ?w1"
      have "basic_input_loop h m (acc @ [k]) ?w2 = Some (acc', console_after h ?w2 rest out')"
        using Cons.prems(2) False nl by (intro Cons.IH) (auto simp: after_simps)
      then show ?thesis using g False nl
        by (subst basic_input_loop.simps) (simp add: after_simps)
    qed
  qed
qed

lemma edit_of_loop:
  assumes "basic_input_loop h m acc w = Some y"
  shows "\<exists>acc' out' rest. edit m (pending w) acc (stdout w) = Some (acc', out', rest) \<and>
           y = (acc', console_after h w rest out')"
proof (rule basic_input_loop.raw_induct
    [where P = "\<lambda>h m acc w y. \<exists>acc' out' rest.
        edit m (pending w) acc (stdout w) = Some (acc', out', rest) \<and>
        y = (acc', console_after h w rest out')", OF _ assms])
  fix loop :: "termios_h \<Rightarrow> char option \<Rightarrow> string \<Rightarrow> world \<Rightarrow> (string \<times> world) option"
  fix h m acc w y
  assume IH: "\<And>h m acc w y. loop h m acc w = Some y \<Longrightarrow>
     \<exists>acc' out' rest. edit m (pending w) acc (stdout w) = Some (acc', out', rest) \<and>
        y = (acc', console_after h w rest out')"
  assume body: "(let (character, w1) = getch h w;
          (user_input1, w2) =
            (if character = BACKSPACE then
               (if acc \<noteq> []
                then (butlast acc, cout [CURSOR_BACK, CHR '' '', CURSOR_BACK] w1)
                else (acc, w1))
             else if character \<noteq> NEWLINE then
               (acc @ [character],
                cout [case m of Some m \<Rightarrow> m | None \<Rightarrow> character] w1)
             else (acc, w1))
      in if character \<noteq> NEWLINE then loop h m user_input1 w2
         else Some (user_input1, w2)) = Some y"
  show "\<exists>acc' out' rest. edit m (pending w) acc (stdout w) = Some (acc', out', rest) \<and>
        y = (acc', console_after h w rest out')"
  proof (cases "pending w")
    case Nil
    let ?w1 = "console_after h w [] (stdout w)"
    let ?w2 = "cout [case m of Some m \<Rightarrow> m | None \<Rightarrow> char_of EOF] ?w1"
    have "loop h m (acc @ [char_of EOF]) ?w2 = Some y"
      using body Nil char_of_EOF by (simp add: getch_eq)
    from IH [OF this] show ?thesis
      by (simp add: after_simps)
  next
    case (Cons k ks)
    let ?w1 = "console_after h w ks (stdout w)"
    have g: "getch h w = (k, ?w1)"
      using Cons by (simp add: getch_eq)
    show ?thesis
    proof (cases "k = NEWLINE")
      case True
      then show ?thesis using body g Cons
        by (auto simp: NEWLINE_def BACKSPACE_def)
    next
      case nl: False
      show ?thesis
      proof (cases "k = BACKSPACE")
        case True
        show ?thesis
        proof (cases "acc = []")
          case e: True
          have "loop h m acc ?w1 = Some y"
            using body g True nl e by simp
          from IH [OF this] show ?thesis using Cons True nl e
            by (simp add: after_simps)
        next
          case e: False
          let ?w2 = "cout [CURSOR_BACK, CHR '' '', CURSOR_BACK] ?w1"
          have "loop h m (butlast acc) ?w2 = Some y"
            using body g True nl e by simp
          from IH [OF this] show ?thesis using Cons True nl e
            by (simp add: after_simps)
        qed
      next
        case False
        let ?w2 = "cout [case m of Some x \<Rightarrow> x | None \<Rightarrow> k] ?w1"
        have "loop h m (acc @ [k]) ?w2 = Some y"
          using body g False nl by simp
        from IH [OF this] show ?thesis using Cons False nl
          by (simp add: after_simps)
      qed
    qed
  qed
qed

lemma basic_input_loop_eq:
  "basic_input_loop h m acc w =
     map_option (\<lambda>(acc', out', rest). (acc', console_after h w rest out'))
       (edit m (pending w) acc (stdout w))"
proof (cases "edit m (pending w) acc (stdout w)")
  case None
  then show ?thesis using edit_of_loop [of h m acc w]
    by (cases "basic_input_loop h m acc w") auto
next
  case (Some r)
  then show ?thesis using loop_of_edit [of w "pending w" m acc "fst r" "fst (snd r)" "snd (snd r)" h]
    by (cases r) auto
qed





lemma edit_masked_shape:
  "list_all2 (\<lambda>k k'. (k = NEWLINE \<longleftrightarrow> k' = NEWLINE) \<and> (k = BACKSPACE \<longleftrightarrow> k' = BACKSPACE)) ks ks' \<Longrightarrow>
   length acc = length acc' \<Longrightarrow>
   map_option (fst \<circ> snd) (edit (Some m) ks acc out) = map_option (fst \<circ> snd) (edit (Some m) ks' acc' out)"
proof (induction ks ks' arbitrary: acc acc' out rule: list_all2_induct)
  case Nil
  then show ?case by simp
next
  case (Cons k ks k' ks')
  have "length (butlast acc) = length (butlast acc')" "length (acc @ [k]) = length (acc' @ [k'])"
    "acc = [] \<longleftrightarrow> acc' = []"
    using Cons.prems by auto
  then show ?case
    using Cons.hyps(1) Cons.IH by simp
qed

lemma edit_masked_out:
  "edit (Some m) ks acc out = Some (acc', out', rest) \<Longrightarrow>
   \<exists>e. out' = out @ e \<and> set e \<subseteq> {m, CURSOR_BACK, CHR '' ''}"
proof (induction ks arbitrary: acc out)
  case Nil
  then show ?case by simp
next
  case (Cons k ks)
  show ?case
  proof (cases "k = NEWLINE")
    case True
    then show ?thesis using Cons.prems by auto
  next
    case nl: False
    show ?thesis
    proof (cases "k = BACKSPACE \<and> acc = []")
      case True
      then show ?thesis using Cons.prems nl Cons.IH [of acc out] by simp
    next
      case False
      define step where "step = (if k = BACKSPACE then [CURSOR_BACK, CHR '' '', CURSOR_BACK] else [m])"
      define acc1 where "acc1 = (if k = BACKSPACE then butlast acc else acc @ [k])"
      have "edit (Some m) ks acc1 (out @ step) = Some (acc', out', rest)"
        using Cons.prems nl False by (auto simp: step_def acc1_def split: if_splits)
      from Cons.IH [OF this] obtain e where "out' = (out @ step) @ e" "set e \<subseteq> {m, CURSOR_BACK, CHR '' ''}"
        by blast
      then have "out' = out @ (step @ e) \<and> set (step @ e) \<subseteq> {m, CURSOR_BACK, CHR '' ''}"
        by (auto simp: step_def)
      then show ?thesis by blast
    qed
  qed
qed

text \<open>C9: in Masked mode two runs whose keystrokes have the same shape write the same
  text to standard output (and both return or neither does), and what a run writes
  consists of the mask glyph and of the erase sequence's cursor-back and space only.\<close>

theorem masked_echo:
  "(same_shape (pending w) (pending w') \<and> stdout w = stdout w' \<longrightarrow>
      map_option (stdout \<circ> snd) (style_input_function h Masked w) =
      map_option (stdout \<circ> snd) (style_input_function h Masked w')) \<and>
   (\<forall>s w1. style_input_function h Masked w = Some (s, w1) \<longrightarrow>
      (\<exists>e. stdout w1 = stdout w @ e \<and> set e \<subseteq> {INPUT_MASK, CURSOR_BACK, CHR '' ''}))"
proof (intro conjI impI allI)
  assume a: "same_shape (pending w) (pending w') \<and> stdout w = stdout w'"
  have "map_option (fst \<circ> snd) (edit (Some INPUT_MASK) (pending w) [] (stdout w)) =
        map_option (fst \<circ> snd) (edit (Some INPUT_MASK) (pending w') [] (stdout w))"
    using a by (intro edit_masked_shape) (simp_all add: same_shape_def)
  then show "map_option (stdout \<circ> snd) (style_input_function h Masked w) =
      map_option (stdout \<circ> snd) (style_input_function h Masked w')"
    using a
    by (simp add: style_input_function_def basic_input_def basic_input_loop_eq
        option.map_comp comp_def case_prod_beta stdout_after)
next
  fix s w1
  assume "style_input_function h Masked w = Some (s, w1)"
  then obtain out' rest where "edit (Some INPUT_MASK) (pending w) [] (stdout w) = Some (s, out', rest)"
    "w1 = console_after h w rest out'"
    by (auto simp: style_input_function_def basic_input_def basic_input_loop_eq)
  then show "\<exists>e. stdout w1 = stdout w @ e \<and> set e \<subseteq> {INPUT_MASK, CURSOR_BACK, CHR '' ''}"
    using edit_masked_out [of INPUT_MASK "pending w" "[]" "stdout w" s out' rest]
    by (simp add: stdout_after)
qed

theorem masked_echo_witness:
  "same_shape (pending (tty 0x8A3B ''abc\<newline>'')) (pending (tty 0x8A3B ''xyz\<newline>'')) \<and>
   map_option (stdout \<circ> snd) (style_input_function linux_termios_h Masked (tty 0x8A3B ''abc\<newline>'')) = Some ''***'' \<and>
   map_option (stdout \<circ> snd) (style_input_function linux_termios_h Masked (tty 0x8A3B ''xyz\<newline>'')) = Some ''***'' \<and>
   map_option fst (style_input_function linux_termios_h Masked (tty 0x8A3B ''abc\<newline>'')) = Some ''abc'' \<and>
   map_option fst (style_input_function linux_termios_h Masked (tty 0x8A3B ''xyz\<newline>'')) = Some ''xyz''"
  using masked_echo [of "tty 0x8A3B ''abc\<newline>''" "tty 0x8A3B ''xyz\<newline>''" linux_termios_h]
  by (simp add: same_shape_def pending_def tty_def NEWLINE_def BACKSPACE_def
      style_input_function_def basic_input_def basic_input_loop_eq INPUT_MASK_def stdout_after)

section \<open>Properties of the checks\<close>

subsection \<open>Matching the expressions the checks use\<close>

lemma match_plus_tail:
  "match_pieces [Rep a 1 None, AssertEnd] b s \<longleftrightarrow> s \<noteq> [] \<and> list_all (atom_matches a) s"
proof -
  have "(\<exists>k \<in> {1 ..< Suc (length s)}. list_all (atom_matches a) (take k s) \<and> drop k s = []) \<longleftrightarrow>
      s \<noteq> [] \<and> list_all (atom_matches a) s"
  proof
    assume "\<exists>k \<in> {1 ..< Suc (length s)}. list_all (atom_matches a) (take k s) \<and> drop k s = []"
    then obtain k where "1 \<le> k" "k \<le> length s" "list_all (atom_matches a) (take k s)" "drop k s = []"
      by auto
    then show "s \<noteq> [] \<and> list_all (atom_matches a) s"
      by (cases s) auto
  next
    assume "s \<noteq> [] \<and> list_all (atom_matches a) s"
    then have "length s \<in> {1 ..< Suc (length s)}" "list_all (atom_matches a) (take (length s) s)"
      "drop (length s) s = []"
      by (auto simp: Suc_le_eq)
    then show "\<exists>k \<in> {1 ..< Suc (length s)}. list_all (atom_matches a) (take k s) \<and> drop k s = []"
      by blast
  qed
  moreover have "match_pieces [Rep a 1 None, AssertEnd] b s \<longleftrightarrow>
      list_ex (\<lambda>k. list_all (atom_matches a) (take k s) \<and> drop k s = []) [1 ..< Suc (length s)]"
    by simp
  ultimately show ?thesis
    by (simp only: list_ex_iff set_upt)
qed

lemma match_plus:
  "match_pieces [AssertBegin, Rep a 1 None, AssertEnd] True s \<longleftrightarrow>
     s \<noteq> [] \<and> list_all (atom_matches a) s"
  by (simp only: match_pieces.simps(2) simp_thms match_plus_tail)

lemma match_exact:
  "match_pieces [AssertBegin, Rep a n (Some n), AssertEnd] True s \<longleftrightarrow>
     length s = n \<and> list_all (atom_matches a) s"
proof (cases "n \<le> length s")
  case True
  then have "[n ..< Suc (min n (length s))] = [n]"
    by (simp add: min_absorb1)
  then show ?thesis using True by (auto simp: list_ex_iff)
next
  case False
  then have "[n ..< Suc (min n (length s))] = []"
    by simp
  then show ?thesis using False by simp
qed

lemma any_char_all: "list_all (atom_matches AnyChar) s \<longleftrightarrow> CHR 0x0A \<notin> set s \<and> CHR 0x0D \<notin> set s"
  by (induction s) auto

subsection \<open>\<^verbatim>\<open>numeric\<close> and \<^verbatim>\<open>range\<close>\<close>

lemma std_regex_unsigned:
  "std_regex ''^[0-9]+$'' =
     Inr [AssertBegin, Rep (Bracket False [BRange (CHR ''0'') (CHR ''9'')]) 1 None, AssertEnd]"
  by code_simp

lemma std_regex_signed:
  "std_regex ''^-?[0-9]+$'' =
     Inr [AssertBegin, Rep (Literal (CHR ''-'')) 0 (Some 1),
          Rep (Bracket False [BRange (CHR ''0'') (CHR ''9'')]) 1 None, AssertEnd]"
  by code_simp

lemma std_regex_floating:
  "std_regex (''^-?[0-9]+'' @ [CHR 0x5C] @ ''.[0-9]+$'') =
     Inr [AssertBegin, Rep (Literal (CHR ''-'')) 0 (Some 1),
          Rep (Bracket False [BRange (CHR ''0'') (CHR ''9'')]) 1 None,
          Rep (Literal (CHR ''.'')) 1 (Some 1),
          Rep (Bracket False [BRange (CHR ''0'') (CHR ''9'')]) 1 None, AssertEnd]"
  by code_simp

lemma numeric_arithmetic:
  "is_arithmetic T \<Longrightarrow> numeric T = Inr (matches_regex (numeric_regex T))"
  using std_regex_unsigned std_regex_signed std_regex_floating
  by (simp add: numeric_def numeric_regex_def Let_def)

lemma accepts_numeric:
  "accepts (numeric T) s = Some True \<longleftrightarrow> (\<exists>check. numeric T = Inr check \<and> check s = Inr ())"
  by (cases "numeric T") (simp_all add: accepts_def)

lemma range_check_accepts:
  "range_check T stream_extract mininimum maximum s = Inr (Inr ()) \<longleftrightarrow>
     accepts (numeric T) s = Some True \<and>
     (\<exists>v. stream_extract s = Some v \<and> \<not> v < mininimum \<and> \<not> v > maximum)"
proof (cases "numeric T")
  case (Inl e)
  then show ?thesis by (simp add: range_check_def accepts_def)
next
  case (Inr check)
  then show ?thesis
    by (cases "check s"; cases "stream_extract s") (simp_all add: range_check_def accepts_def)
qed

lemma range_check_parse_failure:
  "accepts (numeric T) s = Some True \<Longrightarrow> stream_extract s = None \<Longrightarrow>
   range_check T stream_extract mininimum maximum s = Inr (Inl (InvalidInputException INVALID_INPUT_PROMPT))"
  by (cases "numeric T") (auto simp: range_check_def accepts_def split: sum.splits)

lemma range_check_outcomes:
  assumes "is_arithmetic T"
  shows "range_check T stream_extract mininimum maximum s = Inr (Inr ()) \<or>
     range_check T stream_extract mininimum maximum s = Inr (Inl (InvalidInputException INVALID_INPUT_PROMPT))"
  by (simp add: range_check_def numeric_arithmetic [OF assms] matches_regex_def split: option.splits)

lemma ieee_between:
  fixes x :: "'a::linorder ieee"
  shows "\<not> x < Finite a \<and> \<not> x > Finite b \<longleftrightarrow> x = NaN \<or> (Finite a \<le> x \<and> x \<le> Finite b)"
  by (cases x) (auto simp: less_ieee_def less_eq_ieee_def)

text \<open>C8 as stated fails for a floating type with a NaN bound: \<^verbatim>\<open>5.0\<close> passes
  \<^verbatim>\<open>numeric<double>()\<close>, the stream reads the value 5 from it, neither \<open>5 < NaN\<close> nor
  \<open>5 > NaN\<close> holds and the check of \<^verbatim>\<open>range<double>(NaN, NaN)\<close> accepts it, although
  \<open>NaN \<le> 5 \<and> 5 \<le> NaN\<close> is false.\<close>

theorem range_nan_bounds_counterexample:
  "accepts (numeric double_traits) ''5.0'' = Some True \<and>
   extract_floating ''5.0'' = Some (Finite 5) \<and>
   range_check double_traits extract_floating NaN NaN ''5.0'' = Inr (Inr ()) \<and>
   \<not> (NaN \<le> Finite (5 :: rat) \<and> Finite (5 :: rat) \<le> NaN)"
proof -
  have n: "accepts (numeric double_traits) ''5.0'' = Some True"
    by code_simp
  have e: "extract_floating ''5.0'' = Some (Finite 5)"
    by (simp add: extract_floating_def isspace_def is_digit_def decimal_def digit_value_def Let_def)
  have "range_check double_traits extract_floating NaN NaN ''5.0'' = Inr (Inr ())"
    unfolding range_check_accepts using n e by (simp add: less_ieee_def)
  then show ?thesis
    using n e by (simp add: less_eq_ieee_def)
qed

text \<open>C8, as the code has it: the check of \<^verbatim>\<open>range<T>(mininimum, maximum)\<close> accepts a
  candidate exactly when the check of \<^verbatim>\<open>numeric<T>()\<close> accepts it and the value \<open>v\<close> read
  from it is neither below the minimum nor above the maximum by the comparisons of \<open>T\<close>.
  When the read fails after the syntax check passed the candidate is rejected with the
  default message, and for an arithmetic \<open>T\<close> a call never ends otherwise than by
  accepting or rejecting. For a linearly ordered \<open>T\<close> (the integral types), and for a
  floating \<open>T\<close> when the bounds and the value read are not NaN, the condition on \<open>v\<close> is
  that it lies between the bounds, inclusive. \<^verbatim>\<open>range<int>(1, 10)\<close> accepts 1, 10 and 5 and
  rejects 0, 11, -3 and x.\<close>

theorem range_accepts_iff:
  fixes mininimum maximum :: "'a::ord"
    and stream_extract :: "string \<Rightarrow> 'a option"
    and lo hi :: "'b::linorder"
    and extract_ordered :: "string \<Rightarrow> 'b option"
    and a b :: "'c::linorder"
    and extract_ieee :: "string \<Rightarrow> 'c ieee option"
  shows
  "(range_check T stream_extract mininimum maximum s = Inr (Inr ()) \<longleftrightarrow>
      accepts (numeric T) s = Some True \<and>
      (\<exists>v. stream_extract s = Some v \<and> \<not> v < mininimum \<and> \<not> v > maximum)) \<and>
   (accepts (numeric T) s = Some True \<and> stream_extract s = None \<longrightarrow>
      range_check T stream_extract mininimum maximum s =
        Inr (Inl (InvalidInputException INVALID_INPUT_PROMPT))) \<and>
   (is_arithmetic T \<longrightarrow>
      range_check T stream_extract mininimum maximum s = Inr (Inr ()) \<or>
      range_check T stream_extract mininimum maximum s =
        Inr (Inl (InvalidInputException INVALID_INPUT_PROMPT))) \<and>
   (range_check T extract_ordered lo hi s = Inr (Inr ()) \<longleftrightarrow>
      accepts (numeric T) s = Some True \<and>
      (\<exists>v. extract_ordered s = Some v \<and> lo \<le> v \<and> v \<le> hi)) \<and>
   (extract_ieee s \<noteq> Some NaN \<longrightarrow>
      (range_check T extract_ieee (Finite a) (Finite b) s = Inr (Inr ()) \<longleftrightarrow>
         accepts (numeric T) s = Some True \<and>
         (\<exists>v. extract_ieee s = Some v \<and> Finite a \<le> v \<and> v \<le> Finite b))) \<and>
   map (range_check int_traits (extract_integral T_int) 1 10)
     [''1'', ''10'', ''5'', ''0'', ''11'', ''-3'', ''x''] =
     [Inr (Inr ()), Inr (Inr ()), Inr (Inr ()),
      Inr (Inl (InvalidInputException INVALID_INPUT_PROMPT)),
      Inr (Inl (InvalidInputException INVALID_INPUT_PROMPT)),
      Inr (Inl (InvalidInputException INVALID_INPUT_PROMPT)),
      Inr (Inl (InvalidInputException INVALID_INPUT_PROMPT))]"
proof (intro conjI)
  show "range_check T stream_extract mininimum maximum s = Inr (Inr ()) \<longleftrightarrow>
      accepts (numeric T) s = Some True \<and>
      (\<exists>v. stream_extract s = Some v \<and> \<not> v < mininimum \<and> \<not> v > maximum)"
    by (rule range_check_accepts)
  show "accepts (numeric T) s = Some True \<and> stream_extract s = None \<longrightarrow>
      range_check T stream_extract mininimum maximum s =
        Inr (Inl (InvalidInputException INVALID_INPUT_PROMPT))"
    using range_check_parse_failure [of T s stream_extract] by blast
  show "is_arithmetic T \<longrightarrow>
      range_check T stream_extract mininimum maximum s = Inr (Inr ()) \<or>
      range_check T stream_extract mininimum maximum s =
        Inr (Inl (InvalidInputException INVALID_INPUT_PROMPT))"
    using range_check_outcomes [of T stream_extract] by blast
  show "range_check T extract_ordered lo hi s = Inr (Inr ()) \<longleftrightarrow>
      accepts (numeric T) s = Some True \<and>
      (\<exists>v. extract_ordered s = Some v \<and> lo \<le> v \<and> v \<le> hi)"
    unfolding range_check_accepts by (simp add: not_less)
  show "extract_ieee s \<noteq> Some NaN \<longrightarrow>
      (range_check T extract_ieee (Finite a) (Finite b) s = Inr (Inr ()) \<longleftrightarrow>
         accepts (numeric T) s = Some True \<and>
         (\<exists>v. extract_ieee s = Some v \<and> Finite a \<le> v \<and> v \<le> Finite b))"
    unfolding range_check_accepts ieee_between by auto
  show "map (range_check int_traits (extract_integral T_int) 1 10)
     [''1'', ''10'', ''5'', ''0'', ''11'', ''-3'', ''x''] =
     [Inr (Inr ()), Inr (Inr ()), Inr (Inr ()),
      Inr (Inl (InvalidInputException INVALID_INPUT_PROMPT)),
      Inr (Inl (InvalidInputException INVALID_INPUT_PROMPT)),
      Inr (Inl (InvalidInputException INVALID_INPUT_PROMPT)),
      Inr (Inl (InvalidInputException INVALID_INPUT_PROMPT))]"
    by code_simp
qed

text \<open>The hypotheses at work: \<open>99999999999\<close> passes \<^verbatim>\<open>numeric<int>()\<close>, does not fit an
  \<^verbatim>\<open>int\<close>, and is rejected by \<^verbatim>\<open>range<int>()\<close> with its default bounds; \<open>2.5\<close> lies
  between the bounds of \<^verbatim>\<open>range<double>(1.0, 3.0)\<close>.\<close>

theorem range_accepts_iff_witness:
  "is_arithmetic int_traits \<and>
   accepts (numeric int_traits) ''99999999999'' = Some True \<and>
   extract_integral T_int ''99999999999'' = None \<and>
   range_check int_traits (extract_integral T_int) (- 2147483648) 2147483647 ''99999999999'' =
     Inr (Inl (InvalidInputException INVALID_INPUT_PROMPT)) \<and>
   range_check int_traits (extract_integral T_int) (- 2147483648) 2147483647 ''-42'' = Inr (Inr ()) \<and>
   extract_floating ''2.5'' \<noteq> Some NaN \<and>
   range_check double_traits extract_floating (Finite 1) (Finite 3) ''2.5'' = Inr (Inr ())"
proof -
  have a: "is_arithmetic int_traits"
    by (simp add: int_traits_def)
  have n: "accepts (numeric int_traits) ''99999999999'' = Some True"
    by code_simp
  have e: "extract_integral T_int ''99999999999'' = None"
    by (simp add: extract_integral_def isspace_def is_digit_def decimal_def digit_value_def Let_def)
  have n2: "accepts (numeric int_traits) ''-42'' = Some True"
    by code_simp
  have e2: "extract_integral T_int ''-42'' = Some (- 42)"
    by (simp add: extract_integral_def isspace_def is_digit_def decimal_def digit_value_def Let_def)
  have n3: "accepts (numeric double_traits) ''2.5'' = Some True"
    by code_simp
  have e3: "extract_floating ''2.5'' = Some (Finite (5 / 2))"
    by (simp add: extract_floating_def isspace_def is_digit_def decimal_def digit_value_def Let_def)
  note r1 = range_accepts_iff [of int_traits "extract_integral T_int" "- 2147483648" 2147483647
      "''99999999999''" "extract_integral T_int" "- 2147483648" 2147483647
      "\<lambda>s. None :: rat ieee option" 0 0]
  note r2 = range_accepts_iff [of int_traits "extract_integral T_int" "- 2147483648" 2147483647
      "''-42''" "extract_integral T_int" "- 2147483648" 2147483647
      "\<lambda>s. None :: rat ieee option" 0 0]
  note r3 = range_accepts_iff [of double_traits extract_floating "Finite 1" "Finite 3"
      "''2.5''" "\<lambda>s. None :: int option" 0 0 extract_floating 1 3]
  have 1: "range_check int_traits (extract_integral T_int) (- 2147483648) 2147483647 ''99999999999'' =
     Inr (Inl (InvalidInputException INVALID_INPUT_PROMPT))"
    using r1 n e by blast
  have 2: "range_check int_traits (extract_integral T_int) (- 2147483648) 2147483647 ''-42'' = Inr (Inr ())"
    using r2 n2 e2 by simp
  have 3: "range_check double_traits extract_floating (Finite 1) (Finite 3) ''2.5'' = Inr (Inr ())"
    using r3 n3 e3 by (simp add: less_eq_ieee_def)
  show ?thesis
    using a n e 1 2 3 e3 by simp
qed

text \<open>
  For an integral type that is read as a number the two checks in terms of the candidate
  itself: \<^verbatim>\<open>numeric\<close> accepts the decimal literals, and \<^verbatim>\<open>range\<close> those whose value fits
  the type and lies between the bounds. A literal too large for the type passes
  \<^verbatim>\<open>numeric\<close> and is rejected by \<^verbatim>\<open>range\<close>.
\<close>

lemma digit_class: "atom_matches (Bracket False [BRange (CHR ''0'') (CHR ''9'')]) c \<longleftrightarrow> is_digit c"
  by (simp add: is_digit_def)

lemma digits_class:
  "list_all (atom_matches (Bracket False [BRange (CHR ''0'') (CHR ''9'')])) s \<longleftrightarrow> list_all is_digit s"
  by (simp add: list_all_iff digit_class del: atom_matches.simps)

lemma match_unsigned:
  "match_pieces [AssertBegin, Rep (Bracket False [BRange (CHR ''0'') (CHR ''9'')]) 1 None, AssertEnd] True s
     \<longleftrightarrow> integer_literal False s"
proof -
  have "match_pieces [AssertBegin, Rep (Bracket False [BRange (CHR ''0'') (CHR ''9'')]) 1 None, AssertEnd] True s
    \<longleftrightarrow> match_pieces [Rep (Bracket False [BRange (CHR ''0'') (CHR ''9'')]) 1 None, AssertEnd] True s"
    by (simp only: match_pieces.simps(2) simp_thms)
  then show ?thesis
    unfolding match_plus_tail digits_class by (auto simp: integer_literal_def)
qed

lemma match_signed:
  "match_pieces [AssertBegin, Rep (Literal (CHR ''-'')) 0 (Some 1),
       Rep (Bracket False [BRange (CHR ''0'') (CHR ''9'')]) 1 None, AssertEnd] True s
     \<longleftrightarrow> integer_literal True s"
proof -
  let ?D = "Bracket False [BRange (CHR ''0'') (CHR ''9'')]"
  have tail: "match_pieces [Rep ?D 1 None, AssertEnd] b t \<longleftrightarrow> t \<noteq> [] \<and> list_all is_digit t" for b t
    unfolding match_plus_tail digits_class ..
  have unf: "match_pieces [AssertBegin, Rep (Literal (CHR ''-'')) 0 (Some 1), Rep ?D 1 None, AssertEnd] True s
    \<longleftrightarrow> list_ex (\<lambda>k. list_all (atom_matches (Literal (CHR ''-''))) (take k s) \<and>
                      match_pieces [Rep ?D 1 None, AssertEnd] (k = 0) (drop k s))
          [0 ..< Suc (min 1 (length s))]"
    by (simp only: match_pieces.simps option.case simp_thms)
  show ?thesis
  proof (cases s)
    case Nil
    then show ?thesis unfolding unf tail by (simp add: integer_literal_def)
  next
    case (Cons c r)
    then have "[0 ..< Suc (min 1 (length s))] = [0, 1]"
      by (simp add: upt_rec)
    then show ?thesis
      unfolding unf tail using Cons
      by (auto simp: integer_literal_def)
  qed
qed

lemma numeric_integral:
  assumes "is_arithmetic T" "\<not> is_floating_point T"
  shows "matches_regex (numeric_regex T) s = Inr () \<longleftrightarrow> integer_literal (is_signed T) s"
proof (cases "is_signed T")
  case True
  then have "numeric_regex T = [AssertBegin, Rep (Literal (CHR ''-'')) 0 (Some 1),
       Rep (Bracket False [BRange (CHR ''0'') (CHR ''9'')]) 1 None, AssertEnd]"
    using assms by (simp add: numeric_regex_def)
  then show ?thesis
    using True match_signed [of s] by (simp add: matches_regex_def regex_match_def del: match_pieces.simps)
next
  case False
  then have "numeric_regex T = [AssertBegin,
       Rep (Bracket False [BRange (CHR ''0'') (CHR ''9'')]) 1 None, AssertEnd]"
    using assms by (simp add: numeric_regex_def)
  then show ?thesis
    using False match_unsigned [of s] by (simp add: matches_regex_def regex_match_def del: match_pieces.simps)
qed

lemma digit_not_space: "is_digit c \<Longrightarrow> \<not> isspace c \<and> c \<noteq> CHR ''-'' \<and> c \<noteq> CHR ''+''"
  by (auto simp: is_digit_def isspace_def)

lemma takeWhile_all: "list_all P xs \<Longrightarrow> takeWhile P xs = xs"
  by (simp add: list_all_iff)

lemma extract_literal:
  assumes "integer_literal (signed_integral t) s"
  shows "extract_integral t s =
     (if in_type_range t (literal_value s) then Some (literal_value s) else None)"
proof -
  from assms obtain ds where ds: "ds \<noteq> []" "list_all is_digit ds"
    and s: "s = ds \<or> signed_integral t \<and> s = CHR ''-'' # ds"
    by (auto simp: integer_literal_def)
  from ds obtain d ds' where d: "ds = d # ds'" "is_digit d"
    by (cases ds) auto
  note dn = digit_not_space [OF d(2)]
  have tw: "takeWhile is_digit ds = ds"
    using ds(2) by (rule takeWhile_all)
  from s show ?thesis
  proof
    assume "s = ds"
    have 1: "dropWhile isspace ds = ds"
      using d dn by simp
    have 2: "(case ds of [] \<Rightarrow> (False, ds)
        | c # r \<Rightarrow> if c = CHR ''-'' then (True, r) else if c = CHR ''+'' then (False, r) else (False, ds))
        = (False, ds)"
      using d dn by simp
    have lv: "literal_value ds = int (decimal ds)"
      using d dn by (simp add: literal_value_def)
    show ?thesis
      unfolding \<open>s = ds\<close>
      using ds(1) by (simp add: extract_integral_def Let_def 1 2 tw lv in_type_range_def)
  next
    assume a: "signed_integral t \<and> s = CHR ''-'' # ds"
    have 1: "\<not> isspace (CHR ''-'')"
      by (simp add: isspace_def)
    have lv: "literal_value (CHR ''-'' # ds) = - int (decimal ds)"
      by (simp add: literal_value_def)
    show ?thesis
      unfolding conjunct2 [OF a]
      using ds(1) a by (simp add: extract_integral_def Let_def 1 tw lv in_type_range_def)
  qed
qed

lemma range_integral_accepts_iff:
  "range_check (integral_traits t) (extract_integral t) mininimum maximum s = Inr (Inr ()) \<longleftrightarrow>
     integer_literal (signed_integral t) s \<and> in_type_range t (literal_value s) \<and>
     mininimum \<le> literal_value s \<and> literal_value s \<le> maximum"
proof -
  have a: "is_arithmetic (integral_traits t)" "\<not> is_floating_point (integral_traits t)"
    "is_signed (integral_traits t) = signed_integral t"
    by (simp_all add: integral_traits_def)
  have n: "accepts (numeric (integral_traits t)) s = Some True \<longleftrightarrow>
      integer_literal (signed_integral t) s"
    using numeric_integral [OF a(1,2), of s] a(3)
    by (simp add: accepts_def numeric_arithmetic [OF a(1)])
  show ?thesis
  proof (cases "integer_literal (signed_integral t) s")
    case True
    then show ?thesis
      unfolding range_check_accepts n using extract_literal [OF True] by (auto simp: not_less)
  next
    case False
    then show ?thesis
      unfolding range_check_accepts n by simp
  qed
qed

text \<open>A character type is read as one character: the check of
  \<^verbatim>\<open>range<unsigned char>('0', '9')\<close> accepts \<open>65\<close>, of which the stream reads the digit 6
  (code 54) only.\<close>

lemma range_character_example:
  "extract_character False ''65'' = Some 54 \<and>
   range_check (char_traits False) (extract_character False) 48 57 ''65'' = Inr (Inr ())"
  by code_simp

subsection \<open>\<^verbatim>\<open>length\<close>\<close>

lemma digit_char:
  assumes "k < 10"
  shows "is_digit (char_of (48 + k))" and "digit_value (char_of (48 + k)) = k"
proof -
  have "of_char (char_of (48 + k) :: char) = 48 + k"
    using assms by (simp add: of_char_of)
  then show "is_digit (char_of (48 + k))" "digit_value (char_of (48 + k)) = k"
    using assms by (simp_all add: is_digit_def digit_value_def)
qed

lemma to_string_digits: "list_all is_digit (to_string n) \<and> to_string n \<noteq> []"
proof (induction n rule: to_string.induct)
  case (1 n)
  show ?case
  proof (cases "n < 10")
    case True
    then show ?thesis by (subst (1 2) to_string.simps) (simp add: digit_char)
  next
    case False
    then show ?thesis using 1 by (subst (1 2) to_string.simps) (simp add: digit_char)
  qed
qed

lemma decimal_snoc: "decimal (ds @ [c]) = 10 * decimal ds + digit_value c"
  by (simp add: decimal_def)

lemma decimal_to_string: "decimal (to_string n) = n"
proof (induction n rule: to_string.induct)
  case (1 n)
  show ?case
  proof (cases "n < 10")
    case True
    then show ?thesis by (subst to_string.simps) (simp add: decimal_def digit_char)
  next
    case False
    then show ?thesis using 1 by (subst to_string.simps) (simp add: decimal_snoc digit_char)
  qed
qed

lemma brace_quantifier:
  assumes "list_all is_digit ds" "ds \<noteq> []"
  shows "parse_quantifier (CHR ''{'' # ds @ CHR ''}'' # rest) = greedy (decimal ds, Some (decimal ds)) rest"
proof -
  have nd: "\<not> is_digit (CHR ''}'')" by (simp add: is_digit_def)
  have "takeWhile is_digit (ds @ CHR ''}'' # rest) = ds"
    using assms(1) nd by (simp add: takeWhile_append2 list_all_iff)
  moreover have "dropWhile is_digit (ds @ CHR ''}'' # rest) = CHR ''}'' # rest"
    using assms(1) nd by (simp add: dropWhile_append2 list_all_iff)
  ultimately show ?thesis
    using assms(2) by (simp add: parse_quantifier_def)
qed

lemma length_regex:
  "std_regex (''^.{'' @ to_string n @ ''}$'') = Inr [AssertBegin, Rep AnyChar n (Some n), AssertEnd]"
proof -
  have q: "parse_quantifier (CHR ''{'' # to_string n @ ''}$'') = Inr ((n, Some n), ''$'')"
    using brace_quantifier [of "to_string n" "''$''"] to_string_digits [of n]
    by (simp add: decimal_to_string greedy_def)
  have a: "parse_atom (CHR ''.'') r = Inr (AnyChar, r)" for r
    by (simp add: parse_atom_def)
  show ?thesis
    by (simp add: std_regex_def a q)
qed

text \<open>What the check of \<^verbatim>\<open>length(n)\<close> accepts: the strings of \<open>n\<close> characters none of which
  is a line feed or a carriage return.\<close>

lemma length_check_accepts_iff:
  "\<exists>check. length_check n = Inr check \<and>
     (\<forall>s. check s = Inr () \<longleftrightarrow>
        length s = unat n \<and> CHR 0x0A \<notin> set s \<and> CHR 0x0D \<notin> set s)"
proof -
  let ?r = "[AssertBegin, Rep AnyChar (unat n) (Some (unat n)), AssertEnd]"
  have "length_check n = Inr (matches_regex ?r)"
    unfolding length_check_def length_regex by simp
  moreover have "matches_regex ?r s = Inr () \<longleftrightarrow>
      length s = unat n \<and> CHR 0x0A \<notin> set s \<and> CHR 0x0D \<notin> set s" for s
    unfolding matches_regex_def regex_match_def match_exact any_char_all by simp
  ultimately show ?thesis by blast
qed

lemma length_check_examples:
  "map (accepts (length_check 3)) [''abc'', ''123'', ''ab'', ''abcd''] =
     [Some True, Some True, Some False, Some False]"
  by code_simp

text \<open>C4 fails on the code: \<^verbatim>\<open>length(1)\<close> builds \<open>^.{1}$\<close>, and \<open>.\<close> does not match a line
  terminator; its check rejects the string of length one that \<^verbatim>\<open>instant_input\<close> returns
  when the key pressed is the newline.\<close>

theorem length_check_rejects_newline:
  "length [CHR 0x0A] = unat (1 :: 32 word) \<and>
   accepts (length_check 1) [CHR 0x0A] = Some False \<and>
   map_option fst (instant_input linux_termios_h (tty 0x8A3B [CHR 0x0A])) = Some [CHR 0x0A]"
  by code_simp

subsection \<open>\<^verbatim>\<open>consists_of\<close>\<close>

lemma plain_step:
  assumes "c \<noteq> CHR '']''" "c \<noteq> CHR 0x5C" "c \<noteq> CHR ''[''" "r \<noteq> [] \<Longrightarrow> hd r \<noteq> CHR ''-''"
  shows "parse_bracket_items (c # r) items = parse_bracket_items r (items @ [BChar c])"
  using assms
  by (subst parse_bracket_items.simps(2))
     (auto simp del: parse_bracket_items.simps split: list.splits)

lemma plain_items:
  assumes "set cs \<inter> {CHR '']'', CHR 0x5C, CHR ''['', CHR ''-''} = {}"
  shows "parse_bracket_items (cs @ CHR '']'' # rest) items = Inr (items @ map BChar cs, rest)"
  using assms
proof (induction cs arbitrary: items)
  case Nil
  then show ?case by simp
next
  case (Cons c cs)
  have "hd (cs @ CHR '']'' # rest) \<noteq> CHR ''-''"
    using Cons.prems by (cases cs) auto
  then have "parse_bracket_items (c # (cs @ CHR '']'' # rest)) items =
      parse_bracket_items (cs @ CHR '']'' # rest) (items @ [BChar c])"
    using Cons.prems by (intro plain_step) auto
  then have "parse_bracket_items ((c # cs) @ CHR '']'' # rest) items =
      parse_bracket_items (cs @ CHR '']'' # rest) (items @ [BChar c])"
    by (simp del: parse_bracket_items.simps)
  also have "\<dots> = Inr ((items @ [BChar c]) @ map BChar cs, rest)"
    using Cons.prems by (intro Cons.IH) auto
  finally show ?case by simp
qed

lemma consists_of_plain_regex:
  assumes "set cs \<inter> {CHR '']'', CHR 0x5C, CHR ''['', CHR ''-''} = {}"
    and "cs = [] \<or> hd cs \<noteq> CHR ''^''"
  shows "std_regex (''^['' @ cs @ '']+$'') =
     Inr [AssertBegin, Rep (Bracket False (map BChar cs)) 1 None, AssertEnd]"
proof -
  have "parse_bracket (cs @ '']+$'') = Inr (Bracket False (map BChar cs), ''+$'')"
  proof (cases cs)
    case Nil
    then show ?thesis by (simp add: parse_bracket_def)
  next
    case (Cons c cs')
    then have "c \<noteq> CHR ''^''" using assms(2) by simp
    moreover have "parse_bracket_items (cs @ CHR '']'' # ''+$'') [] = Inr ([] @ map BChar cs, ''+$'')"
      using assms(1) by (rule plain_items)
    ultimately show ?thesis
      using Cons by (simp add: parse_bracket_def del: parse_bracket_items.simps)
  qed
  then have a: "parse_atom (CHR ''['') (cs @ '']+$'') = Inr (Bracket False (map BChar cs), ''+$'')"
    by (simp add: parse_atom_def)
  have q: "parse_quantifier ''+$'' = Inr ((1, None), ''$'')"
    by (simp add: parse_quantifier_def greedy_def)
  have "parse_regex (CHR ''['' # cs @ '']+$'') =
      Inr [Rep (Bracket False (map BChar cs)) 1 None, AssertEnd]"
    by (subst parse_regex.simps) (simp add: a q)
  then show ?thesis
    by (simp add: std_regex_def)
qed

lemma bracket_plain: "atom_matches (Bracket False (map BChar cs)) c \<longleftrightarrow> c \<in> set cs"
  by (auto simp: list_ex_iff)

text \<open>For a string without \<open>]\<close>, a backslash, \<open>[\<close> and \<open>-\<close> that does not start with \<open>^\<close> the check
  of \<^verbatim>\<open>consists_of\<close> accepts the non-empty strings over its characters.\<close>

lemma consists_of_plain:
  assumes "set cs \<inter> {CHR '']'', CHR 0x5C, CHR ''['', CHR ''-''} = {}"
    and "cs = [] \<or> hd cs \<noteq> CHR ''^''"
  shows "\<exists>check. consists_of cs = Inr check \<and>
     (\<forall>s. check s = Inr () \<longleftrightarrow> s \<noteq> [] \<and> set s \<subseteq> set cs)"
proof -
  let ?r = "[AssertBegin, Rep (Bracket False (map BChar cs)) 1 None, AssertEnd]"
  have "consists_of cs = Inr (matches_regex ?r)"
    unfolding consists_of_def consists_of_plain_regex [OF assms] by simp
  moreover have "matches_regex ?r s = Inr () \<longleftrightarrow> s \<noteq> [] \<and> set s \<subseteq> set cs" for s
    unfolding matches_regex_def regex_match_def match_plus
    by (auto simp: list_all_iff bracket_plain simp del: atom_matches.simps)
  ultimately show ?thesis by blast
qed

text \<open>C3 fails on the code: \<^verbatim>\<open>consists_of("a-c")\<close> builds the expression \<open>^[a-c]+$\<close>, whose
  bracket holds the range from a to c; its check accepts b, which is not a character of
  the given string, and rejects the dash, which is.\<close>

theorem consists_of_range_accepts_outsider:
  "accepts (consists_of ''a-c'') ''b'' = Some True \<and> CHR ''b'' \<notin> set ''a-c'' \<and>
   accepts (consists_of ''a-c'') ''-'' = Some False \<and> CHR ''-'' \<in> set ''a-c''"
  by code_simp

section \<open>A run of \<^verbatim>\<open>validate\<close>\<close>

lemma pending_cerr: "pending (cerr text w) = pending w"
  by (simp add: pending_def cerr_def)

lemma stdout_cerr: "stdout (cerr text w) = stdout w"
  by (simp add: cerr_def)

lemma pending_cout: "pending (cout text w) = pending w"
  by (simp add: pending_def cout_def)

lemma stdout_cout: "stdout (cout text w) = stdout w @ text"
  by (simp add: cout_def)

text \<open>The keystrokes \<open>x\<close>, confirm, \<open>42\<close>, confirm against the check of \<^verbatim>\<open>numeric<int>()\<close>:
  the first attempt is rejected, the second is returned.\<close>

theorem validate_returns_checked_witness:
  "map_option fst
     (validate (basic_input linux_termios_h None) [matches_regex (numeric_regex int_traits)]
        (tty 0x8A3B ''x\<newline>42\<newline>'')) = Some ''42'' \<and>
   matches_regex (numeric_regex int_traits) ''42'' = Inr () \<and>
   matches_regex (numeric_regex int_traits) ''x'' = Inl (InvalidInputException INVALID_INPUT_PROMPT)"
proof -
  let ?h = linux_termios_h
  let ?c = "matches_regex (numeric_regex int_traits)"
  let ?w = "tty 0x8A3B ''x\<newline>42\<newline>''"
  let ?w1 = "console_after ?h ?w ''42\<newline>'' ''x''"
  let ?w2 = "cerr (INVALID_INPUT_PROMPT @ endl) (cout endl ?w1)"
  let ?w3 = "console_after ?h ?w2 [] (''x'' @ endl @ ''42'')"
  have r2: "?c ''42'' = Inr ()"
    by code_simp
  have x: "?c ''x'' = Inl (InvalidInputException INVALID_INPUT_PROMPT)"
    by code_simp
  note r1 = x
  have b1: "basic_input ?h None ?w = Some (''x'', ?w1)"
    by (simp add: basic_input_def basic_input_loop_eq pending_def tty_def NEWLINE_def BACKSPACE_def)
  have b2: "basic_input ?h None ?w2 = Some (''42'', ?w3)"
    by (simp add: basic_input_def basic_input_loop_eq pending_cerr pending_cout stdout_cerr
        stdout_cout after_simps NEWLINE_def BACKSPACE_def endl_def)
  have l2: "validate_loop (basic_input ?h None) [?c] ?w2 = Some (''42'', cout endl ?w3)"
    by (subst validate_loop.simps) (simp add: b2 r2)
  have l1: "validate_loop (basic_input ?h None) [?c] ?w = Some (''42'', cout endl ?w3)"
    by (subst validate_loop.simps) (simp add: b1 x l2)
  have v: "validate (basic_input ?h None) [?c] ?w = Some (''42'', cout endl ?w3)"
    by (simp add: validate_def l1)
  have "[?c] \<noteq> []" by simp
  from validate_returns_checked [OF this v] have "?c ''42'' = Inr ()"
    by simp
  then show ?thesis using v x by simp
qed

end
